theory Spec2Isabelle
  imports Complex_Main
begin

section \<open>Callbacks of the training loop (torchy\_baselines/common/callbacks.py)\<close>

text \<open>
  A shallow embedding of the callback classes. A callback object is a value of the
  datatype \<open>callback\<close>, one constructor per class; every method takes the object and the
  outside world and returns the updated object and world, or the exception it raises.
  An exception ends the training run, so no state is returned with it.

  The composition of callbacks is a tree: a \<open>CallbackList\<close> holds its children, an
  \<open>EventCallback\<close> holds its optional child, and no object occurs twice. The
  back-reference \<open>parent\<close>, which \<open>EventCallback.__init__\<close> sets on the child, is the
  position in the tree: a method that reads \<open>self.parent\<close> receives the parent object as
  an argument (\<open>None\<close> for an object that no \<open>EventCallback\<close> wraps).
\<close>

subsection \<open>Values of the outside world\<close>

type_synonym ref = nat

text \<open>
  A Python float as far as comparisons see it: not-a-number, the two infinities, or a
  finite value. Comparisons with \<open>NaN\<close> are false, as in IEEE 754.
\<close>

datatype pyfloat = NaN | NegInf | Fin real | PosInf

fun float_lt :: "pyfloat \<Rightarrow> pyfloat \<Rightarrow> bool" where
  "float_lt NaN _ = False"
| "float_lt _ NaN = False"
| "float_lt NegInf NegInf = False"
| "float_lt NegInf _ = True"
| "float_lt (Fin x) (Fin y) = (x < y)"
| "float_lt (Fin x) PosInf = True"
| "float_lt (Fin x) NegInf = False"
| "float_lt PosInf _ = False"

definition float_gt :: "pyfloat \<Rightarrow> pyfloat \<Rightarrow> bool" where
  "float_gt a b = float_lt b a"

definition float_le :: "pyfloat \<Rightarrow> pyfloat \<Rightarrow> bool" where
  "float_le a b = (a \<noteq> NaN \<and> b \<noteq> NaN \<and> (a = b \<or> float_lt a b))"

definition float_ge :: "pyfloat \<Rightarrow> pyfloat \<Rightarrow> bool" where
  "float_ge a b = float_le b a"

datatype error =
    AttributeError
  | AssertionError
  | ZeroDivisionError
  | TypeError
  | FileNotFoundError
  | UserError nat

text \<open>An environment: a single \<open>gym.Env\<close>, or a \<open>VecEnv\<close> with its \<open>num_envs\<close>.\<close>

datatype env = GymEnv ref | VecEnv ref int

datatype message =
    MsgSavingCheckpoint string
  | MsgEval int pyfloat pyfloat
  | MsgNewBest
  | MsgStopping pyfloat pyfloat

text \<open>What a callback does to the outside world, in the order it does it.\<close>

datatype effect =
    Makedirs string
  | ModelSave ref string
  | SyncEnvsNormalization "env option" env
  | EvaluatePolicy ref env int bool
  | Savez string "int list" "pyfloat list list"
  | Print message

text \<open>
  One run of \<open>evaluate_policy\<close>: the episode rewards it returns, with the values
  \<open>np.mean\<close> and \<open>np.std\<close> compute for them.
\<close>

record evaluation =
  episode_rewards :: "pyfloat list"
  mean_reward :: pyfloat
  std_reward :: pyfloat

text \<open>
  The world: the trainers (\<open>BaseRLModel\<close> objects, by reference) with their
  \<open>num_timesteps\<close> and \<open>get_env()\<close>, the global \<open>Logger.CURRENT\<close>, the outcomes of
  the successive calls of \<open>evaluate_policy\<close>, and the effects so far.
\<close>

record world =
  model_num_timesteps :: "ref \<Rightarrow> int"
  model_get_env :: "ref \<Rightarrow> env"
  Logger_CURRENT :: ref
  evaluate_policy :: "nat \<Rightarrow> evaluation"
  n_evaluations :: nat
  effects :: "effect list"

definition emit :: "effect \<Rightarrow> world \<Rightarrow> world" where
  "emit e w = w\<lparr>effects := effects w @ [e]\<rparr>"

definition print_if :: "bool \<Rightarrow> message \<Rightarrow> world \<Rightarrow> world" where
  "print_if c msg w = (if c then emit (Print msg) w else w)"

subsection \<open>Library functions the callbacks use\<close>

text \<open>\<open>os.path.join\<close> of two components and \<open>os.path.dirname\<close>, as \<open>posixpath\<close> has them.\<close>

definition os_path_join :: "string \<Rightarrow> string \<Rightarrow> string" where
  "os_path_join a b =
     (if b \<noteq> [] \<and> hd b = CHR ''/'' then b
      else if a = [] \<or> last a = CHR ''/'' then a @ b
      else a @ ''/'' @ b)"

definition os_path_dirname :: "string \<Rightarrow> string" where
  "os_path_dirname p =
     (let head = rev (dropWhile (\<lambda>c. c \<noteq> CHR ''/'') (rev p)) in
      if head \<noteq> [] \<and> \<not> list_all (\<lambda>c. c = CHR ''/'') head
      then rev (dropWhile (\<lambda>c. c = CHR ''/'') (rev head))
      else head)"

text \<open>
  \<open>os.makedirs(path, exist_ok=True)\<close>: the empty path raises \<open>FileNotFoundError\<close>;
  any other path is created (failures of the file system itself are left out).
\<close>

definition os_makedirs :: "string \<Rightarrow> world \<Rightarrow> error + world" where
  "os_makedirs p w = (if p = [] then Inl FileNotFoundError else Inr (emit (Makedirs p) w))"

text \<open>The decimal rendering of an \<open>int\<close> in an f-string.\<close>

definition digit_char :: "nat \<Rightarrow> char" where
  "digit_char d = ''0123456789'' ! d"

fun str_nat :: "nat \<Rightarrow> string" where
  "str_nat n = (if n < 10 then [digit_char n] else str_nat (n div 10) @ [digit_char (n mod 10)])"

declare str_nat.simps [simp del]

definition str_int :: "int \<Rightarrow> string" where
  "str_int i = (if i < 0 then CHR ''-'' # str_nat (nat (- i)) else str_nat (nat i))"

subsection \<open>The callback objects\<close>

text \<open>The fields of \<open>BaseCallback\<close> (the field \<open>parent\<close> is the position in the tree).\<close>

record base =
  model :: "ref option"
  training_env :: "env option"
  n_calls :: int
  num_timesteps :: int
  verbose :: int
  locals :: "ref option"
  globals :: "ref option"
  logger :: "ref option"

text \<open>The fields \<open>EvalCallback\<close> adds to those of \<open>EventCallback\<close>.\<close>

record eval_fields =
  n_eval_episodes :: int
  eval_freq :: int
  best_mean_reward :: pyfloat
  deterministic :: bool
  eval_env :: env
  best_model_save_path :: "string option"
  log_path :: "string option"
  evaluations_results :: "pyfloat list list"
  evaluations_timesteps :: "int list"

text \<open>
  \<open>BaseCallback\<close> is abstract: any other subclass is a \<open>UserCallback\<close>, with a state of
  its own and the six methods it may override. A method reads the fields of the base
  class and changes only its own state and the world.
\<close>

record 'u methods =
  u_init_callback :: "base \<Rightarrow> 'u \<Rightarrow> world \<Rightarrow> error + 'u \<times> world"
  u_on_training_start :: "base \<Rightarrow> 'u \<Rightarrow> world \<Rightarrow> error + 'u \<times> world"
  u_on_rollout_start :: "base \<Rightarrow> 'u \<Rightarrow> world \<Rightarrow> error + 'u \<times> world"
  u_on_step :: "base \<Rightarrow> 'u \<Rightarrow> world \<Rightarrow> error + bool \<times> 'u \<times> world"
  u_on_training_end :: "base \<Rightarrow> 'u \<Rightarrow> world \<Rightarrow> error + 'u \<times> world"
  u_on_rollout_end :: "base \<Rightarrow> 'u \<Rightarrow> world \<Rightarrow> error + 'u \<times> world"

type_synonym functional_callback =
  "ref option \<Rightarrow> ref option \<Rightarrow> world \<Rightarrow> error + bool \<times> world"

datatype 'u callback =
    CallbackList base "'u callback list"
  | CheckpointCallback base int "string option" string
  | ConvertCallback base "functional_callback option"
  | EvalCallback base "'u callback option" eval_fields
  | StopTrainingOnRewardThreshold base pyfloat
  | EveryNTimesteps base "'u callback option" int int
  | UserCallback base 'u "'u methods"

type_synonym 'u step_result = "error + bool \<times> 'u callback \<times> world"
type_synonym 'u unit_result = "error + 'u callback \<times> world"

fun base_of :: "'u callback \<Rightarrow> base" where
  "base_of (CallbackList b _) = b"
| "base_of (CheckpointCallback b _ _ _) = b"
| "base_of (ConvertCallback b _) = b"
| "base_of (EvalCallback b _ _) = b"
| "base_of (StopTrainingOnRewardThreshold b _) = b"
| "base_of (EveryNTimesteps b _ _ _) = b"
| "base_of (UserCallback b _ _) = b"

fun with_base :: "base \<Rightarrow> 'u callback \<Rightarrow> 'u callback" where
  "with_base b (CallbackList _ cs) = CallbackList b cs"
| "with_base b (CheckpointCallback _ f sp np) = CheckpointCallback b f sp np"
| "with_base b (ConvertCallback _ f) = ConvertCallback b f"
| "with_base b (EvalCallback _ c ef) = EvalCallback b c ef"
| "with_base b (StopTrainingOnRewardThreshold _ t) = StopTrainingOnRewardThreshold b t"
| "with_base b (EveryNTimesteps _ c n l) = EveryNTimesteps b c n l"
| "with_base b (UserCallback _ u ms) = UserCallback b u ms"

lemma size_with_base [simp]: "size (with_base b cb) = size cb"
  by (cases cb) simp_all

lemma base_of_with_base [simp]: "base_of (with_base b cb) = b"
  by (cases cb) simp_all

subsection \<open>Constructors\<close>

definition BaseCallback_init :: "int \<Rightarrow> base" where
  "BaseCallback_init v =
     \<lparr>model = None, training_env = None, n_calls = 0, num_timesteps = 0, verbose = v,
      locals = None, globals = None, logger = None\<rparr>"

definition CallbackList_init :: "'u callback list \<Rightarrow> 'u callback" where
  "CallbackList_init callbacks = CallbackList (BaseCallback_init 0) callbacks"

definition CheckpointCallback_init ::
  "int \<Rightarrow> string option \<Rightarrow> string \<Rightarrow> int \<Rightarrow> 'u callback" where
  "CheckpointCallback_init save_freq save_path name_prefix v =
     CheckpointCallback (BaseCallback_init v) save_freq save_path name_prefix"

definition ConvertCallback_init :: "functional_callback option \<Rightarrow> int \<Rightarrow> 'u callback" where
  "ConvertCallback_init f v = ConvertCallback (BaseCallback_init v) f"

text \<open>A \<open>VecEnv\<close> for evaluation must hold one environment: the constructor asserts it.\<close>

definition EvalCallback_init ::
  "env \<Rightarrow> 'u callback option \<Rightarrow> int \<Rightarrow> int \<Rightarrow> string option \<Rightarrow> string option \<Rightarrow> bool \<Rightarrow> int
     \<Rightarrow> error + 'u callback" where
  "EvalCallback_init e callback_on_new_best n_episodes freq lp bp det v =
     (case e of
        VecEnv _ num_envs \<Rightarrow>
          if num_envs = 1 then
            Inr (EvalCallback (BaseCallback_init v) callback_on_new_best
              \<lparr>n_eval_episodes = n_episodes, eval_freq = freq, best_mean_reward = NegInf,
               deterministic = det, eval_env = e, best_model_save_path = bp, log_path = lp,
               evaluations_results = [], evaluations_timesteps = []\<rparr>)
          else Inl AssertionError
      | GymEnv _ \<Rightarrow>
          Inr (EvalCallback (BaseCallback_init v) callback_on_new_best
            \<lparr>n_eval_episodes = n_episodes, eval_freq = freq, best_mean_reward = NegInf,
             deterministic = det, eval_env = e, best_model_save_path = bp, log_path = lp,
             evaluations_results = [], evaluations_timesteps = []\<rparr>))"

definition StopTrainingOnRewardThreshold_init :: "pyfloat \<Rightarrow> int \<Rightarrow> 'u callback" where
  "StopTrainingOnRewardThreshold_init reward_threshold v =
     StopTrainingOnRewardThreshold (BaseCallback_init v) reward_threshold"

definition EveryNTimesteps_init :: "int \<Rightarrow> 'u callback option \<Rightarrow> 'u callback" where
  "EveryNTimesteps_init n_steps callback = EveryNTimesteps (BaseCallback_init 0) callback n_steps 0"

subsection \<open>Initialisation\<close>

text \<open>The three assignments of \<open>BaseCallback.init_callback\<close>.\<close>

definition bind_model :: "world \<Rightarrow> ref \<Rightarrow> base \<Rightarrow> base" where
  "bind_model w m b =
     b\<lparr>model := Some m, training_env := Some (model_get_env w m),
       logger := Some (Logger_CURRENT w)\<rparr>"

definition CheckpointCallback_init_callback_hook :: "string option \<Rightarrow> world \<Rightarrow> error + world" where
  "CheckpointCallback_init_callback_hook save_path w =
     (case save_path of None \<Rightarrow> Inr w | Some p \<Rightarrow> os_makedirs p w)"

definition EvalCallback_init_callback_hook :: "eval_fields \<Rightarrow> world \<Rightarrow> error + world" where
  "EvalCallback_init_callback_hook ef w =
     (case (case best_model_save_path ef of None \<Rightarrow> Inr w | Some p \<Rightarrow> os_makedirs p w) of
        Inl e \<Rightarrow> Inl e
      | Inr w1 \<Rightarrow>
          (case log_path ef of None \<Rightarrow> Inr w1
           | Some lp \<Rightarrow> os_makedirs (os_path_dirname lp) w1))"

text \<open>
  \<open>init_callback\<close>: the base class binds the object and runs the hook \<open>_init_callback\<close>
  (the loop over the children for a \<open>CallbackList\<close>); \<open>EventCallback\<close> then calls
  \<open>self.callback.init_callback(self.model)\<close>, with no test that \<open>self.callback\<close> is there.
\<close>

fun init_callback :: "world \<Rightarrow> ref \<Rightarrow> 'u callback \<Rightarrow> 'u unit_result"
and CallbackList_init_callback_loop ::
  "world \<Rightarrow> ref \<Rightarrow> 'u callback list \<Rightarrow> error + 'u callback list \<times> world"
where
  "init_callback w m (CallbackList b cs) =
     (case CallbackList_init_callback_loop w m cs of
        Inl e \<Rightarrow> Inl e
      | Inr (cs', w') \<Rightarrow> Inr (CallbackList (bind_model w m b) cs', w'))"
| "init_callback w m (CheckpointCallback b f sp np) =
     (case CheckpointCallback_init_callback_hook sp w of
        Inl e \<Rightarrow> Inl e
      | Inr w' \<Rightarrow> Inr (CheckpointCallback (bind_model w m b) f sp np, w'))"
| "init_callback w m (ConvertCallback b f) = Inr (ConvertCallback (bind_model w m b) f, w)"
| "init_callback w m (EvalCallback b child ef) =
     (case EvalCallback_init_callback_hook ef w of
        Inl e \<Rightarrow> Inl e
      | Inr w1 \<Rightarrow>
          (case child of
             None \<Rightarrow> Inl AttributeError
           | Some c \<Rightarrow>
               (case init_callback w1 m c of
                  Inl e \<Rightarrow> Inl e
                | Inr (c', w2) \<Rightarrow> Inr (EvalCallback (bind_model w m b) (Some c') ef, w2))))"
| "init_callback w m (StopTrainingOnRewardThreshold b t) =
     Inr (StopTrainingOnRewardThreshold (bind_model w m b) t, w)"
| "init_callback w m (EveryNTimesteps b child n l) =
     (case child of
        None \<Rightarrow> Inl AttributeError
      | Some c \<Rightarrow>
          (case init_callback w m c of
             Inl e \<Rightarrow> Inl e
           | Inr (c', w') \<Rightarrow> Inr (EveryNTimesteps (bind_model w m b) (Some c') n l, w')))"
| "init_callback w m (UserCallback b u ms) =
     (case u_init_callback ms (bind_model w m b) u w of
        Inl e \<Rightarrow> Inl e
      | Inr (u', w') \<Rightarrow> Inr (UserCallback (bind_model w m b) u' ms, w'))"
| "CallbackList_init_callback_loop w m [] = Inr ([], w)"
| "CallbackList_init_callback_loop w m (c # cs) =
     (case init_callback w m c of
        Inl e \<Rightarrow> Inl e
      | Inr (c', w1) \<Rightarrow>
          (case CallbackList_init_callback_loop w1 m cs of
             Inl e \<Rightarrow> Inl e
           | Inr (cs', w2) \<Rightarrow> Inr (c' # cs', w2)))"

subsection \<open>Start and end of training, start and end of a rollout\<close>

definition set_locals :: "ref \<Rightarrow> ref \<Rightarrow> base \<Rightarrow> base" where
  "set_locals l g b = b\<lparr>locals := Some l, globals := Some g\<rparr>"

text \<open>
  \<open>on_training_start\<close> stores the two references and runs \<open>_on_training_start\<close>: the
  loop of a \<open>CallbackList\<close>, the call on \<open>self.callback\<close> of an \<open>EventCallback\<close>.
  Both pass on \<open>self.locals\<close> and \<open>self.globals\<close>, the references just stored.
\<close>

fun on_training_start :: "world \<Rightarrow> ref \<Rightarrow> ref \<Rightarrow> 'u callback \<Rightarrow> 'u unit_result"
and CallbackList_on_training_start_loop ::
  "world \<Rightarrow> ref \<Rightarrow> ref \<Rightarrow> 'u callback list \<Rightarrow> error + 'u callback list \<times> world"
where
  "on_training_start w l g (CallbackList b cs) =
     (case CallbackList_on_training_start_loop w l g cs of
        Inl e \<Rightarrow> Inl e
      | Inr (cs', w') \<Rightarrow> Inr (CallbackList (set_locals l g b) cs', w'))"
| "on_training_start w l g (EvalCallback b child ef) =
     (case child of
        None \<Rightarrow> Inl AttributeError
      | Some c \<Rightarrow>
          (case on_training_start w l g c of
             Inl e \<Rightarrow> Inl e
           | Inr (c', w') \<Rightarrow> Inr (EvalCallback (set_locals l g b) (Some c') ef, w')))"
| "on_training_start w l g (EveryNTimesteps b child n lt) =
     (case child of
        None \<Rightarrow> Inl AttributeError
      | Some c \<Rightarrow>
          (case on_training_start w l g c of
             Inl e \<Rightarrow> Inl e
           | Inr (c', w') \<Rightarrow> Inr (EveryNTimesteps (set_locals l g b) (Some c') n lt, w')))"
| "on_training_start w l g (UserCallback b u ms) =
     (case u_on_training_start ms (set_locals l g b) u w of
        Inl e \<Rightarrow> Inl e
      | Inr (u', w') \<Rightarrow> Inr (UserCallback (set_locals l g b) u' ms, w'))"
| "on_training_start w l g (CheckpointCallback b f sp np) =
     Inr (CheckpointCallback (set_locals l g b) f sp np, w)"
| "on_training_start w l g (ConvertCallback b f) = Inr (ConvertCallback (set_locals l g b) f, w)"
| "on_training_start w l g (StopTrainingOnRewardThreshold b t) =
     Inr (StopTrainingOnRewardThreshold (set_locals l g b) t, w)"
| "CallbackList_on_training_start_loop w l g [] = Inr ([], w)"
| "CallbackList_on_training_start_loop w l g (c # cs) =
     (case on_training_start w l g c of
        Inl e \<Rightarrow> Inl e
      | Inr (c', w1) \<Rightarrow>
          (case CallbackList_on_training_start_loop w1 l g cs of
             Inl e \<Rightarrow> Inl e
           | Inr (cs', w2) \<Rightarrow> Inr (c' # cs', w2)))"

text \<open>
  \<open>on_training_end\<close> runs \<open>_on_training_end\<close>: the loop of a \<open>CallbackList\<close>, the
  method of a user's subclass, and \<open>pass\<close> for every other class.
\<close>

fun on_training_end :: "world \<Rightarrow> 'u callback \<Rightarrow> 'u unit_result"
and CallbackList_on_training_end_loop ::
  "world \<Rightarrow> 'u callback list \<Rightarrow> error + 'u callback list \<times> world"
where
  "on_training_end w (CallbackList b cs) =
     (case CallbackList_on_training_end_loop w cs of
        Inl e \<Rightarrow> Inl e
      | Inr (cs', w') \<Rightarrow> Inr (CallbackList b cs', w'))"
| "on_training_end w (UserCallback b u ms) =
     (case u_on_training_end ms b u w of
        Inl e \<Rightarrow> Inl e
      | Inr (u', w') \<Rightarrow> Inr (UserCallback b u' ms, w'))"
| "on_training_end w (CheckpointCallback b f sp np) = Inr (CheckpointCallback b f sp np, w)"
| "on_training_end w (ConvertCallback b f) = Inr (ConvertCallback b f, w)"
| "on_training_end w (EvalCallback b child ef) = Inr (EvalCallback b child ef, w)"
| "on_training_end w (StopTrainingOnRewardThreshold b t) =
     Inr (StopTrainingOnRewardThreshold b t, w)"
| "on_training_end w (EveryNTimesteps b child n l) = Inr (EveryNTimesteps b child n l, w)"
| "CallbackList_on_training_end_loop w [] = Inr ([], w)"
| "CallbackList_on_training_end_loop w (c # cs) =
     (case on_training_end w c of
        Inl e \<Rightarrow> Inl e
      | Inr (c', w1) \<Rightarrow>
          (case CallbackList_on_training_end_loop w1 cs of
             Inl e \<Rightarrow> Inl e
           | Inr (cs', w2) \<Rightarrow> Inr (c' # cs', w2)))"

text \<open>
  \<open>on_rollout_start\<close> and \<open>on_rollout_end\<close> run \<open>_on_rollout_start\<close> and
  \<open>_on_rollout_end\<close>, which no class of the file overrides: only a user's subclass
  does anything.
\<close>

fun on_rollout_start :: "world \<Rightarrow> 'u callback \<Rightarrow> 'u unit_result" where
  "on_rollout_start w (UserCallback b u ms) =
     (case u_on_rollout_start ms b u w of
        Inl e \<Rightarrow> Inl e
      | Inr (u', w') \<Rightarrow> Inr (UserCallback b u' ms, w'))"
| "on_rollout_start w cb = Inr (cb, w)"

fun on_rollout_end :: "world \<Rightarrow> 'u callback \<Rightarrow> 'u unit_result" where
  "on_rollout_end w (UserCallback b u ms) =
     (case u_on_rollout_end ms b u w of
        Inl e \<Rightarrow> Inl e
      | Inr (u', w') \<Rightarrow> Inr (UserCallback b u' ms, w'))"
| "on_rollout_end w cb = Inr (cb, w)"

subsection \<open>The step\<close>

text \<open>
  The first two statements of \<open>BaseCallback.__call__\<close>: the call counter goes up by one,
  then \<open>self.model.num_timesteps\<close> is read, which fails on an object that was never
  initialised.
\<close>

definition tick :: "world \<Rightarrow> base \<Rightarrow> error + base" where
  "tick w b =
     (let b1 = b\<lparr>n_calls := n_calls b + 1\<rparr> in
      case model b1 of
        None \<Rightarrow> Inl AttributeError
      | Some m \<Rightarrow> Inr (b1\<lparr>num_timesteps := model_num_timesteps w m + 1\<rparr>))"

text \<open>\<open>CheckpointCallback._on_step\<close>.\<close>

definition CheckpointCallback_on_step ::
  "world \<Rightarrow> base \<Rightarrow> int \<Rightarrow> string option \<Rightarrow> string \<Rightarrow> error + bool \<times> world" where
  "CheckpointCallback_on_step w b save_freq save_path name_prefix =
     (if save_freq = 0 then Inl ZeroDivisionError
      else if n_calls b mod save_freq = 0 then
        (case save_path of
           None \<Rightarrow> Inl TypeError
         | Some dir \<Rightarrow>
             (let path = os_path_join dir
                    (name_prefix @ ''_'' @ str_int (num_timesteps b) @ ''_steps'') in
              case model b of
                None \<Rightarrow> Inl AttributeError
              | Some m \<Rightarrow>
                  Inr (True,
                    print_if (verbose b > 1) (MsgSavingCheckpoint path) (emit (ModelSave m path) w))))
      else Inr (True, w))"

text \<open>\<open>ConvertCallback._on_step\<close>.\<close>

definition ConvertCallback_on_step ::
  "world \<Rightarrow> base \<Rightarrow> functional_callback option \<Rightarrow> error + bool \<times> world" where
  "ConvertCallback_on_step w b callback =
     (case callback of
        Some f \<Rightarrow> f (locals b) (globals b) w
      | None \<Rightarrow> Inr (True, w))"

text \<open>
  \<open>StopTrainingOnRewardThreshold._on_step\<close>: the assertion on \<open>self.parent\<close>, then the
  read of \<open>self.parent.best_mean_reward\<close>, an attribute only an \<open>EvalCallback\<close> has.
\<close>

definition StopTrainingOnRewardThreshold_on_step ::
  "world \<Rightarrow> 'u callback option \<Rightarrow> base \<Rightarrow> pyfloat \<Rightarrow> error + bool \<times> world" where
  "StopTrainingOnRewardThreshold_on_step w parent b reward_threshold =
     (case parent of
        None \<Rightarrow> Inl AssertionError
      | Some (EvalCallback _ _ pf) \<Rightarrow>
          (let continue_training = float_lt (best_mean_reward pf) reward_threshold in
           Inr (continue_training,
             print_if (verbose b > 0 \<and> \<not> continue_training)
               (MsgStopping (best_mean_reward pf) reward_threshold) w))
      | Some _ \<Rightarrow> Inl AttributeError)"

text \<open>
  The evaluation of \<open>EvalCallback._on_step\<close>, from the synchronisation of the
  environments to the report that is printed.
\<close>

definition EvalCallback_run_evaluation ::
  "world \<Rightarrow> base \<Rightarrow> eval_fields \<Rightarrow> error + evaluation \<times> eval_fields \<times> world" where
  "EvalCallback_run_evaluation w b ef =
     (case model b of
        None \<Rightarrow> Inl AttributeError
      | Some m \<Rightarrow>
          (let w1 = emit (SyncEnvsNormalization (training_env b) (eval_env ef)) w;
               ev = evaluate_policy w1 (n_evaluations w1);
               w2 = emit (EvaluatePolicy m (eval_env ef) (n_eval_episodes ef) (deterministic ef))
                      (w1\<lparr>n_evaluations := n_evaluations w1 + 1\<rparr>);
               ef1 = (case log_path ef of
                        None \<Rightarrow> ef
                      | Some lp \<Rightarrow>
                          ef\<lparr>evaluations_timesteps := evaluations_timesteps ef @ [num_timesteps b],
                             evaluations_results := evaluations_results ef @ [episode_rewards ev]\<rparr>);
               w3 = (case log_path ef of
                       None \<Rightarrow> w2
                     | Some lp \<Rightarrow>
                         emit (Savez lp (evaluations_timesteps ef1) (evaluations_results ef1)) w2);
               w4 = print_if (verbose b > 0)
                      (MsgEval (num_timesteps b) (mean_reward ev) (std_reward ev)) w3
           in Inr (ev, ef1, w4)))"

text \<open>The statements under \<open>if mean_reward > self.best_mean_reward\<close>, up to the assignment.\<close>

definition EvalCallback_new_best ::
  "world \<Rightarrow> base \<Rightarrow> eval_fields \<Rightarrow> pyfloat \<Rightarrow> error + eval_fields \<times> world" where
  "EvalCallback_new_best w b ef mean =
     (let w1 = print_if (verbose b > 0) MsgNewBest w in
      case best_model_save_path ef of
        None \<Rightarrow> Inr (ef\<lparr>best_mean_reward := mean\<rparr>, w1)
      | Some dir \<Rightarrow>
          (case model b of
             None \<Rightarrow> Inl AttributeError
           | Some m \<Rightarrow>
               Inr (ef\<lparr>best_mean_reward := mean\<rparr>,
                 emit (ModelSave m (os_path_join dir ''best_model'')) w1)))"

text \<open>
  \<open>call\<close> is \<open>BaseCallback.__call__\<close>; \<open>on_step\<close> is the method \<open>_on_step\<close> of the
  object's class; \<open>on_event\<close> is \<open>EventCallback._on_event\<close>, which calls the child with
  the object as its parent; \<open>CallbackList_on_step_loop\<close> is the loop of
  \<open>CallbackList._on_step\<close>, with the variable \<open>continue_training\<close>.
\<close>

fun call :: "world \<Rightarrow> 'u callback option \<Rightarrow> 'u callback \<Rightarrow> 'u step_result"
and on_step :: "world \<Rightarrow> 'u callback option \<Rightarrow> 'u callback \<Rightarrow> 'u step_result"
and on_event :: "world \<Rightarrow> 'u callback \<Rightarrow> 'u step_result"
and CallbackList_on_step_loop ::
  "world \<Rightarrow> 'u callback list \<Rightarrow> bool \<Rightarrow> error + bool \<times> 'u callback list \<times> world"
where
  "call w parent cb =
     (case tick w (base_of cb) of
        Inl e \<Rightarrow> Inl e
      | Inr b \<Rightarrow> on_step w parent (with_base b cb))"
| "on_step w parent (CallbackList b cs) =
     (case CallbackList_on_step_loop w cs True of
        Inl e \<Rightarrow> Inl e
      | Inr (continue_training, cs', w') \<Rightarrow> Inr (continue_training, CallbackList b cs', w'))"
| "on_step w parent (CheckpointCallback b f sp np) =
     (case CheckpointCallback_on_step w b f sp np of
        Inl e \<Rightarrow> Inl e
      | Inr (r, w') \<Rightarrow> Inr (r, CheckpointCallback b f sp np, w'))"
| "on_step w parent (ConvertCallback b f) =
     (case ConvertCallback_on_step w b f of
        Inl e \<Rightarrow> Inl e
      | Inr (r, w') \<Rightarrow> Inr (r, ConvertCallback b f, w'))"
| "on_step w parent (EvalCallback b child ef) =
     (if eval_freq ef = 0 then Inl ZeroDivisionError
      else if n_calls b mod eval_freq ef = 0 then
        (case EvalCallback_run_evaluation w b ef of
           Inl e \<Rightarrow> Inl e
         | Inr (ev, ef1, w1) \<Rightarrow>
             if float_gt (mean_reward ev) (best_mean_reward ef1) then
               (case EvalCallback_new_best w1 b ef1 (mean_reward ev) of
                  Inl e \<Rightarrow> Inl e
                | Inr (ef2, w2) \<Rightarrow>
                    if child \<noteq> None then on_event w2 (EvalCallback b child ef2)
                    else Inr (True, EvalCallback b child ef2, w2))
             else Inr (True, EvalCallback b child ef1, w1))
      else Inr (True, EvalCallback b child ef, w))"
| "on_step w parent (StopTrainingOnRewardThreshold b t) =
     (case StopTrainingOnRewardThreshold_on_step w parent b t of
        Inl e \<Rightarrow> Inl e
      | Inr (r, w') \<Rightarrow> Inr (r, StopTrainingOnRewardThreshold b t, w'))"
| "on_step w parent (EveryNTimesteps b child n_steps last_time_trigger) =
     (if num_timesteps b - last_time_trigger \<ge> n_steps
      then on_event w (EveryNTimesteps b child n_steps (num_timesteps b))
      else Inr (True, EveryNTimesteps b child n_steps last_time_trigger, w))"
| "on_step w parent (UserCallback b u ms) =
     (case u_on_step ms b u w of
        Inl e \<Rightarrow> Inl e
      | Inr (r, u', w') \<Rightarrow> Inr (r, UserCallback b u' ms, w'))"
| "on_event w (EvalCallback b (Some c) ef) =
     (case call w (Some (EvalCallback b (Some c) ef)) c of
        Inl e \<Rightarrow> Inl e
      | Inr (r, c', w') \<Rightarrow> Inr (r, EvalCallback b (Some c') ef, w'))"
| "on_event w (EveryNTimesteps b (Some c) n l) =
     (case call w (Some (EveryNTimesteps b (Some c) n l)) c of
        Inl e \<Rightarrow> Inl e
      | Inr (r, c', w') \<Rightarrow> Inr (r, EveryNTimesteps b (Some c') n l, w'))"
| "on_event w cb = Inr (True, cb, w)"
| "CallbackList_on_step_loop w [] continue_training = Inr (continue_training, [], w)"
| "CallbackList_on_step_loop w (c # cs) continue_training =
     (case call w None c of
        Inl e \<Rightarrow> Inl e
      | Inr (r, c', w1) \<Rightarrow>
          (case CallbackList_on_step_loop w1 cs (r \<and> continue_training) of
             Inl e \<Rightarrow> Inl e
           | Inr (res, cs', w2) \<Rightarrow> Inr (res, c' # cs', w2)))"

declare call.simps [simp del]

subsection \<open>Runs and traces\<close>

text \<open>
  Calling every object of a list in turn, each in the world its predecessors left, and
  keeping every result: the trace against which the loop of \<open>CallbackList._on_step\<close> is
  compared.
\<close>

fun step_children ::
  "world \<Rightarrow> 'u callback list \<Rightarrow> error + bool list \<times> 'u callback list \<times> world" where
  "step_children w [] = Inr ([], [], w)"
| "step_children w (c # cs) =
     (case call w None c of
        Inl e \<Rightarrow> Inl e
      | Inr (r, c', w1) \<Rightarrow>
          (case step_children w1 cs of
             Inl e \<Rightarrow> Inl e
           | Inr (rs, cs', w2) \<Rightarrow> Inr (r # rs, c' # cs', w2)))"

text \<open>Applying one lifecycle method to every object of a list, in the order of the list.\<close>

fun for_each ::
  "(world \<Rightarrow> 'a \<Rightarrow> error + 'a \<times> world) \<Rightarrow> world \<Rightarrow> 'a list \<Rightarrow> error + 'a list \<times> world" where
  "for_each f w [] = Inr ([], w)"
| "for_each f w (x # xs) =
     (case f w x of
        Inl e \<Rightarrow> Inl e
      | Inr (x', w1) \<Rightarrow>
          (case for_each f w1 xs of
             Inl e \<Rightarrow> Inl e
           | Inr (xs', w2) \<Rightarrow> Inr (x' # xs', w2)))"

text \<open>
  The trainer's loop is outside the file. Consecutive calls of a top-level callback:
  before each call the trainer \<open>m\<close> has set its \<open>num_timesteps\<close> to the next value of
  the list.
\<close>

definition set_num_timesteps :: "ref \<Rightarrow> int \<Rightarrow> world \<Rightarrow> world" where
  "set_num_timesteps m t w = w\<lparr>model_num_timesteps := (model_num_timesteps w)(m := t)\<rparr>"

fun run_calls ::
  "world \<Rightarrow> ref \<Rightarrow> 'u callback \<Rightarrow> int list \<Rightarrow> error + bool list \<times> 'u callback \<times> world" where
  "run_calls w m cb [] = Inr ([], cb, w)"
| "run_calls w m cb (t # ts) =
     (case call (set_num_timesteps m t w) None cb of
        Inl e \<Rightarrow> Inl e
      | Inr (r, cb', w1) \<Rightarrow>
          (case run_calls w1 m cb' ts of
             Inl e \<Rightarrow> Inl e
           | Inr (rs, cb'', w2) \<Rightarrow> Inr (r # rs, cb'', w2)))"

text \<open>The requests \<open>model.save(path)\<close> among the effects.\<close>

fun is_save :: "effect \<Rightarrow> bool" where
  "is_save (ModelSave _ _) = True"
| "is_save _ = False"

definition saves :: "world \<Rightarrow> effect list" where
  "saves w = filter is_save (effects w)"

text \<open>The path that \<open>CheckpointCallback._on_step\<close> builds for the timestep counter \<open>n\<close>.\<close>

definition checkpoint_path :: "string \<Rightarrow> string \<Rightarrow> int \<Rightarrow> string" where
  "checkpoint_path dir name_prefix n =
     os_path_join dir (name_prefix @ ''_'' @ str_int n @ ''_steps'')"

subsection \<open>Concrete objects\<close>

definition world0 :: world where
  "world0 =
     \<lparr>model_num_timesteps = (\<lambda>_. 0), model_get_env = (\<lambda>_. GymEnv 0), Logger_CURRENT = 0,
      evaluate_policy = (\<lambda>_. \<lparr>episode_rewards = [Fin 1, Fin 3], mean_reward = Fin 2,
                                std_reward = Fin 1\<rparr>),
      n_evaluations = 0, effects = []\<rparr>"

text \<open>
  A user's subclass that counts the rollouts it is told of, and one whose \<open>_on_step\<close>
  returns a fixed answer.
\<close>

definition rollout_counter_methods :: "nat methods" where
  "rollout_counter_methods =
     \<lparr>u_init_callback = (\<lambda>b u w. Inr (u, w)),
      u_on_training_start = (\<lambda>b u w. Inr (u, w)),
      u_on_rollout_start = (\<lambda>b u w. Inr (u + 1, w)),
      u_on_step = (\<lambda>b u w. Inr (True, u, w)),
      u_on_training_end = (\<lambda>b u w. Inr (u, w)),
      u_on_rollout_end = (\<lambda>b u w. Inr (u + 1, w))\<rparr>"

definition rollout_counter :: "nat callback" where
  "rollout_counter = UserCallback (BaseCallback_init 0) 0 rollout_counter_methods"

definition answer_methods :: "bool \<Rightarrow> nat methods" where
  "answer_methods r =
     \<lparr>u_init_callback = (\<lambda>b u w. Inr (u, w)),
      u_on_training_start = (\<lambda>b u w. Inr (u, w)),
      u_on_rollout_start = (\<lambda>b u w. Inr (u, w)),
      u_on_step = (\<lambda>b u w. Inr (r, u + 1, w)),
      u_on_training_end = (\<lambda>b u w. Inr (u, w)),
      u_on_rollout_end = (\<lambda>b u w. Inr (u, w))\<rparr>"

definition answer :: "bool \<Rightarrow> nat callback" where
  "answer r = UserCallback ((BaseCallback_init 0)\<lparr>model := Some 0\<rparr>) 0 (answer_methods r)"

text \<open>The fields of an \<open>EvalCallback\<close> that evaluates at every second call.\<close>

definition eval_fields0 :: eval_fields where
  "eval_fields0 =
     \<lparr>n_eval_episodes = 5, eval_freq = 2, best_mean_reward = NegInf, deterministic = True,
      eval_env = GymEnv 1, best_model_save_path = Some ''best'', log_path = None,
      evaluations_results = [], evaluations_timesteps = []\<rparr>"

text \<open>A \<open>CheckpointCallback\<close> that saves at every second call.\<close>

definition checkpoint0 :: "nat callback" where
  "checkpoint0 = CheckpointCallback_init 2 (Some ''ckpt'') ''rl_model'' 0"

text \<open>
  An \<open>EvalCallback\<close> with no child at its second call, before and after the
  evaluation; the world after the first and after the second evaluation.
\<close>

definition eval0 :: "nat callback" where
  "eval0 = EvalCallback ((BaseCallback_init 0)\<lparr>model := Some 0, n_calls := 2\<rparr>) None eval_fields0"

definition eval1 :: "nat callback" where
  "eval1 =
     EvalCallback ((BaseCallback_init 0)\<lparr>model := Some 0, n_calls := 2\<rparr>) None
       (eval_fields0\<lparr>best_mean_reward := Fin 2\<rparr>)"

definition world1 :: world where
  "world1 =
     world0\<lparr>n_evaluations := 1,
       effects := [SyncEnvsNormalization None (GymEnv 1), EvaluatePolicy 0 (GymEnv 1) 5 True,
                   ModelSave 0 ''best/best_model'']\<rparr>"

definition world2 :: world where
  "world2 =
     world0\<lparr>n_evaluations := 2,
       effects := [SyncEnvsNormalization None (GymEnv 1), EvaluatePolicy 0 (GymEnv 1) 5 True,
                   ModelSave 0 ''best/best_model'',
                   SyncEnvsNormalization None (GymEnv 1), EvaluatePolicy 0 (GymEnv 1) 5 True]\<rparr>"

section \<open>Properties\<close>

subsection \<open>Comparison of floats\<close>

lemma float_lt_irrefl [simp]: "\<not> float_lt a a"
  by (cases a) simp_all

lemma float_lt_asym: "float_lt a b \<Longrightarrow> \<not> float_lt b a"
  by (cases a; cases b) simp_all

lemma float_lt_trans: "float_lt a b \<Longrightarrow> float_lt b c \<Longrightarrow> float_lt a c"
  by (cases a; cases b; cases c) simp_all

lemma float_ge_not_lt: "float_ge a b \<Longrightarrow> \<not> float_lt a b"
  by (auto simp: float_ge_def float_le_def dest: float_lt_asym)

subsection \<open>The fields of the base class across a step\<close>

lemma on_event_base:
  "on_event w cb = Inr (r, cb', w') \<Longrightarrow> base_of cb' = base_of cb"
  by (cases "(w, cb)" rule: on_event.cases) (auto split: sum.splits)

lemma on_step_base:
  "on_step w p cb = Inr (r, cb', w') \<Longrightarrow> base_of cb' = base_of cb"
  by (cases cb) (auto split: sum.splits if_splits dest: on_event_base)

lemma call_tick:
  "call w p cb = Inr (r, cb', w') \<Longrightarrow> tick w (base_of cb) = Inr (base_of cb')"
  by (auto simp: call.simps split: sum.splits dest: on_step_base)

lemma loop_trace:
  "CallbackList_on_step_loop w cs ct =
     (case step_children w cs of
        Inl e \<Rightarrow> Inl e
      | Inr (rs, cs', w') \<Rightarrow> Inr (list_all id rs \<and> ct, cs', w'))"
  by (induction cs arbitrary: w ct) (auto split: sum.splits)

lemma tick_n_calls:
  "tick w b = Inr b' \<Longrightarrow> n_calls b' = n_calls b + 1"
  by (auto simp: tick_def Let_def split: option.splits)

lemma step_children_counters:
  "step_children w cs = Inr (rs, cs', w') \<Longrightarrow>
     length rs = length cs \<and> length cs' = length cs \<and>
     (\<forall>i<length cs. n_calls (base_of (cs' ! i)) = n_calls (base_of (cs ! i)) + 1)"
proof (induction cs arbitrary: w rs cs' w')
  case Nil
  then show ?case by simp
next
  case (Cons c cs)
  from Cons.prems obtain r c' w1 rs1 cs1 where
    c: "call w None c = Inr (r, c', w1)" and
    rest: "step_children w1 cs = Inr (rs1, cs1, w')" and
    eqs: "rs = r # rs1" "cs' = c' # cs1"
    by (auto split: sum.splits)
  from Cons.IH [OF rest] have ih:
    "length rs1 = length cs" "length cs1 = length cs"
    "\<forall>i<length cs. n_calls (base_of (cs1 ! i)) = n_calls (base_of (cs ! i)) + 1"
    by simp_all
  from call_tick [OF c] have hd: "n_calls (base_of c') = n_calls (base_of c) + 1"
    by (rule tick_n_calls)
  show ?case using ih hd eqs by (auto simp: nth_Cons split: nat.splits)
qed

subsection \<open>The step of a list of callbacks\<close>

text \<open>
  Claim C1. The step of a \<open>CallbackList\<close> calls every child, in the order of the list and
  whatever the children before it answered, and returns the conjunction of all the
  answers; every child that is called has its call counter one higher afterwards. (If a
  child raises, the exception leaves the loop, as it does in Python.)
\<close>

theorem CallbackList_on_step_runs_every_child:
  "on_step w parent (CallbackList b cs) =
     (case step_children w cs of
        Inl e \<Rightarrow> Inl e
      | Inr (rs, cs', w') \<Rightarrow> Inr (list_all id rs, CallbackList b cs', w')) \<and>
   (\<forall>rs cs' w'. step_children w cs = Inr (rs, cs', w') \<longrightarrow>
      length rs = length cs \<and> length cs' = length cs \<and>
      (\<forall>i<length cs. n_calls (base_of (cs' ! i)) = n_calls (base_of (cs ! i)) + 1))"
proof -
  have "on_step w parent (CallbackList b cs) =
     (case step_children w cs of
        Inl e \<Rightarrow> Inl e
      | Inr (rs, cs', w') \<Rightarrow> Inr (list_all id rs, CallbackList b cs', w'))"
    by (simp add: loop_trace split: sum.splits)
  moreover have "\<forall>rs cs' w'. step_children w cs = Inr (rs, cs', w') \<longrightarrow>
      length rs = length cs \<and> length cs' = length cs \<and>
      (\<forall>i<length cs. n_calls (base_of (cs' ! i)) = n_calls (base_of (cs ! i)) + 1)"
    using step_children_counters by blast
  ultimately show ?thesis by blast
qed

lemma answer_call:
  "call world0 None (answer r) =
     Inr (r, UserCallback ((BaseCallback_init 0)\<lparr>model := Some 0, n_calls := 1, num_timesteps := 1\<rparr>)
               1 (answer_methods r), world0)"
  by (simp add: call.simps tick_def answer_def answer_methods_def BaseCallback_init_def world0_def)

theorem CallbackList_on_step_runs_every_child_witness:
  "step_children world0 [answer False, answer True] =
     Inr ([False, True],
       [UserCallback ((BaseCallback_init 0)\<lparr>model := Some 0, n_calls := 1, num_timesteps := 1\<rparr>)
          1 (answer_methods False),
        UserCallback ((BaseCallback_init 0)\<lparr>model := Some 0, n_calls := 1, num_timesteps := 1\<rparr>)
          1 (answer_methods True)], world0) \<and>
   on_step world0 None (CallbackList_init [answer False, answer True]) =
     Inr (False,
       CallbackList (BaseCallback_init 0)
         [UserCallback ((BaseCallback_init 0)\<lparr>model := Some 0, n_calls := 1, num_timesteps := 1\<rparr>)
            1 (answer_methods False),
          UserCallback ((BaseCallback_init 0)\<lparr>model := Some 0, n_calls := 1, num_timesteps := 1\<rparr>)
            1 (answer_methods True)], world0) \<and>
   n_calls (base_of (answer False)) = 0 \<and> n_calls (base_of (answer True)) = 0"
proof -
  have t: "step_children world0 [answer False, answer True] =
     Inr ([False, True],
       [UserCallback ((BaseCallback_init 0)\<lparr>model := Some 0, n_calls := 1, num_timesteps := 1\<rparr>)
          1 (answer_methods False),
        UserCallback ((BaseCallback_init 0)\<lparr>model := Some 0, n_calls := 1, num_timesteps := 1\<rparr>)
          1 (answer_methods True)], world0)"
    by (simp add: answer_call)
  have c: "n_calls (base_of (answer False)) = 0 \<and> n_calls (base_of (answer True)) = 0"
    by (simp add: answer_def BaseCallback_init_def)
  show ?thesis
    using CallbackList_on_step_runs_every_child
      [of world0 None "BaseCallback_init 0" "[answer False, answer True]"] t c
    by (simp add: CallbackList_init_def)
qed

subsection \<open>The call of a callback\<close>

text \<open>
  Claim C9. On an object bound to a trainer, \<open>__call__\<close> is \<open>_on_step\<close> on the object
  with the call counter one higher and the timestep counter at the trainer's
  \<open>num_timesteps\<close> plus one; it returns what \<open>_on_step\<close> returns, and both counters
  have these values afterwards. The other lifecycle methods return an object and a
  world, with no boolean: their types carry no signal to stop.
\<close>

theorem call_counts_and_delegates:
  assumes "model (base_of cb) = Some m"
  shows "call w parent cb =
           on_step w parent
             (with_base ((base_of cb)\<lparr>n_calls := n_calls (base_of cb) + 1,
                                      num_timesteps := model_num_timesteps w m + 1\<rparr>) cb) \<and>
         (\<forall>r cb' w'. call w parent cb = Inr (r, cb', w') \<longrightarrow>
            n_calls (base_of cb') = n_calls (base_of cb) + 1 \<and>
            num_timesteps (base_of cb') = model_num_timesteps w m + 1)"
proof -
  have t: "tick w (base_of cb) =
      Inr ((base_of cb)\<lparr>n_calls := n_calls (base_of cb) + 1,
                        num_timesteps := model_num_timesteps w m + 1\<rparr>)"
    using assms by (simp add: tick_def)
  then have d: "call w parent cb =
           on_step w parent
             (with_base ((base_of cb)\<lparr>n_calls := n_calls (base_of cb) + 1,
                                      num_timesteps := model_num_timesteps w m + 1\<rparr>) cb)"
    by (simp add: call.simps)
  have "n_calls (base_of cb') = n_calls (base_of cb) + 1 \<and>
        num_timesteps (base_of cb') = model_num_timesteps w m + 1"
    if "call w parent cb = Inr (r, cb', w')" for r cb' w'
  proof -
    from call_tick [OF that] t have "base_of cb' =
      (base_of cb)\<lparr>n_calls := n_calls (base_of cb) + 1,
                   num_timesteps := model_num_timesteps w m + 1\<rparr>"
      by simp
    then show ?thesis by simp
  qed
  with d show ?thesis by blast
qed

theorem call_counts_and_delegates_witness:
  "model (base_of (answer False)) = Some 0 \<and>
   call world0 None (answer False) =
     Inr (False,
       UserCallback ((BaseCallback_init 0)\<lparr>model := Some 0, n_calls := 1, num_timesteps := 1\<rparr>)
         1 (answer_methods False), world0) \<and>
   on_step world0 None
     (UserCallback ((BaseCallback_init 0)\<lparr>model := Some 0, n_calls := 1, num_timesteps := 1\<rparr>)
         0 (answer_methods False)) =
     Inr (False,
       UserCallback ((BaseCallback_init 0)\<lparr>model := Some 0, n_calls := 1, num_timesteps := 1\<rparr>)
         1 (answer_methods False), world0)"
proof -
  have m: "model (base_of (answer False)) = Some 0"
    by (simp add: answer_def BaseCallback_init_def)
  show ?thesis
    using call_counts_and_delegates [OF m, of world0 None] m
    by (simp add: answer_call) (simp add: answer_def answer_methods_def BaseCallback_init_def world0_def)
qed

subsection \<open>Stopping on a reward threshold\<close>

text \<open>
  Claim C5. The step of a \<open>StopTrainingOnRewardThreshold\<close> whose parent is an
  \<open>EvalCallback\<close> returns \<open>True\<close> when the parent's \<open>best_mean_reward\<close> is strictly
  below the threshold, and \<open>False\<close> when it is greater than or equal to the threshold
  (then printing the reason if it is verbose).
\<close>

theorem StopTrainingOnRewardThreshold_on_step_threshold:
  "(float_lt (best_mean_reward pf) t \<longrightarrow>
      on_step w (Some (EvalCallback pb pc pf)) (StopTrainingOnRewardThreshold b t) =
        Inr (True, StopTrainingOnRewardThreshold b t, w)) \<and>
   (float_ge (best_mean_reward pf) t \<longrightarrow>
      on_step w (Some (EvalCallback pb pc pf)) (StopTrainingOnRewardThreshold b t) =
        Inr (False, StopTrainingOnRewardThreshold b t,
          print_if (verbose b > 0) (MsgStopping (best_mean_reward pf) t) w))"
  by (auto simp: StopTrainingOnRewardThreshold_on_step_def print_if_def dest: float_ge_not_lt)

theorem StopTrainingOnRewardThreshold_on_step_threshold_witness:
  "float_lt (best_mean_reward eval_fields0) (Fin 200) \<and>
   on_step world0 (Some (EvalCallback (BaseCallback_init 1) None eval_fields0))
       (StopTrainingOnRewardThreshold (BaseCallback_init 1) (Fin 200) :: nat callback) =
     Inr (True, StopTrainingOnRewardThreshold (BaseCallback_init 1) (Fin 200), world0) \<and>
   float_ge (best_mean_reward (eval_fields0\<lparr>best_mean_reward := Fin 200\<rparr>)) (Fin 200) \<and>
   on_step world0
       (Some (EvalCallback (BaseCallback_init 1) None (eval_fields0\<lparr>best_mean_reward := Fin 200\<rparr>)))
       (StopTrainingOnRewardThreshold (BaseCallback_init 1) (Fin 200) :: nat callback) =
     Inr (False, StopTrainingOnRewardThreshold (BaseCallback_init 1) (Fin 200),
       world0\<lparr>effects := [Print (MsgStopping (Fin 200) (Fin 200))]\<rparr>)"
proof -
  have lt: "float_lt (best_mean_reward eval_fields0) (Fin 200)"
    by (simp add: eval_fields0_def)
  have ge: "float_ge (best_mean_reward (eval_fields0\<lparr>best_mean_reward := Fin 200\<rparr>)) (Fin 200)"
    by (simp add: float_ge_def float_le_def)
  have p: "print_if (verbose (BaseCallback_init 1) > 0) (MsgStopping (Fin 200) (Fin 200)) world0 =
      world0\<lparr>effects := [Print (MsgStopping (Fin 200) (Fin 200))]\<rparr>"
    by (simp add: print_if_def emit_def BaseCallback_init_def world0_def)
  from StopTrainingOnRewardThreshold_on_step_threshold
        [of eval_fields0 "Fin 200" world0 "BaseCallback_init 1" None "BaseCallback_init 1"] lt
  have a: "on_step world0 (Some (EvalCallback (BaseCallback_init 1) None eval_fields0))
       (StopTrainingOnRewardThreshold (BaseCallback_init 1) (Fin 200) :: nat callback) =
     Inr (True, StopTrainingOnRewardThreshold (BaseCallback_init 1) (Fin 200), world0)"
    by blast
  from StopTrainingOnRewardThreshold_on_step_threshold
        [of "eval_fields0\<lparr>best_mean_reward := Fin 200\<rparr>" "Fin 200" world0 "BaseCallback_init 1" None
          "BaseCallback_init 1"] ge
  have b: "on_step world0
       (Some (EvalCallback (BaseCallback_init 1) None (eval_fields0\<lparr>best_mean_reward := Fin 200\<rparr>)))
       (StopTrainingOnRewardThreshold (BaseCallback_init 1) (Fin 200) :: nat callback) =
     Inr (False, StopTrainingOnRewardThreshold (BaseCallback_init 1) (Fin 200),
       print_if (verbose (BaseCallback_init 1) > 0)
         (MsgStopping (best_mean_reward (eval_fields0\<lparr>best_mean_reward := Fin 200\<rparr>)) (Fin 200))
         world0)"
    by blast
  have s: "best_mean_reward (eval_fields0\<lparr>best_mean_reward := Fin 200\<rparr>) = Fin 200"
    by simp
  from lt ge a b [unfolded s p] show ?thesis by blast
qed

text \<open>
  Claim C6. A \<open>StopTrainingOnRewardThreshold\<close> that no \<open>EvalCallback\<close> wraps is
  constructed and initialised without an error; its \<open>_on_step\<close> raises the
  \<open>AssertionError\<close> of the assertion on \<open>self.parent\<close>, and so does the first call of the
  initialised object, alone or as a child of a \<open>CallbackList\<close>.
\<close>

theorem StopTrainingOnRewardThreshold_without_parent:
  "init_callback w m (StopTrainingOnRewardThreshold_init t v) =
     Inr (StopTrainingOnRewardThreshold (bind_model w m (BaseCallback_init v)) t, w) \<and>
   on_step w' None (StopTrainingOnRewardThreshold b t) = Inl AssertionError \<and>
   call w' None (StopTrainingOnRewardThreshold (bind_model w m (BaseCallback_init v)) t) =
     Inl AssertionError \<and>
   step_children w' [StopTrainingOnRewardThreshold (bind_model w m (BaseCallback_init v)) t] =
     Inl AssertionError"
  by (simp add: StopTrainingOnRewardThreshold_init_def StopTrainingOnRewardThreshold_on_step_def
      call.simps tick_def bind_model_def)

theorem StopTrainingOnRewardThreshold_without_parent_witness:
  "init_callback world0 0 (StopTrainingOnRewardThreshold_init (Fin 200) 0 :: nat callback) =
     Inr (StopTrainingOnRewardThreshold (bind_model world0 0 (BaseCallback_init 0)) (Fin 200), world0) \<and>
   call world0 None
     (StopTrainingOnRewardThreshold (bind_model world0 0 (BaseCallback_init 0)) (Fin 200) :: nat callback) =
     Inl AssertionError"
proof -
  note t = StopTrainingOnRewardThreshold_without_parent
    [of world0 0 "Fin 200" 0 world0 "BaseCallback_init 0"]
  show ?thesis
    by (intro conjI) (rule t [THEN conjunct1], rule t [THEN conjunct2, THEN conjunct2, THEN conjunct1])
qed

subsection \<open>A frequency of zero\<close>

text \<open>
  Claim C10. The step of a \<open>CheckpointCallback\<close> constructed with \<open>save_freq = 0\<close>, and
  of an \<open>EvalCallback\<close> constructed with \<open>eval_freq = 0\<close>, raises
  \<open>ZeroDivisionError\<close>, also through \<open>__call__\<close>; with a frequency other than zero the
  modulo is defined and the step of neither raises it (for an \<open>EvalCallback\<close> with no
  child, whose step runs no other code).
\<close>

theorem frequency_zero_raises:
  "on_step w p (CheckpointCallback_init 0 sp np v) = Inl ZeroDivisionError \<and>
   (EvalCallback_init e c n 0 lp bp det v = Inr cb \<longrightarrow> on_step w p cb = Inl ZeroDivisionError) \<and>
   (model b = Some m \<longrightarrow> call w p (CheckpointCallback b 0 sp np) = Inl ZeroDivisionError) \<and>
   (model b = Some m \<longrightarrow>
      call w p (EvalCallback b c (ef\<lparr>eval_freq := 0\<rparr>)) = Inl ZeroDivisionError) \<and>
   (F \<noteq> 0 \<longrightarrow> on_step w p (CheckpointCallback b F sp np) \<noteq> Inl ZeroDivisionError) \<and>
   (F \<noteq> 0 \<longrightarrow> on_step w p (EvalCallback b None (ef\<lparr>eval_freq := F\<rparr>)) \<noteq> Inl ZeroDivisionError)"
proof -
  have 1: "on_step w p (CheckpointCallback_init 0 sp np v) = Inl ZeroDivisionError"
    by (simp add: CheckpointCallback_init_def CheckpointCallback_on_step_def)
  have 2: "EvalCallback_init e c n 0 lp bp det v = Inr cb \<longrightarrow> on_step w p cb = Inl ZeroDivisionError"
    by (auto simp: EvalCallback_init_def split: env.splits if_splits)
  have 3: "model b = Some m \<longrightarrow> call w p (CheckpointCallback b 0 sp np) = Inl ZeroDivisionError"
    by (simp add: call.simps tick_def CheckpointCallback_on_step_def)
  have 4: "model b = Some m \<longrightarrow>
      call w p (EvalCallback b c (ef\<lparr>eval_freq := 0\<rparr>)) = Inl ZeroDivisionError"
    by (simp add: call.simps tick_def)
  have 5: "F \<noteq> 0 \<longrightarrow> on_step w p (CheckpointCallback b F sp np) \<noteq> Inl ZeroDivisionError"
    by (auto simp: CheckpointCallback_on_step_def Let_def split: option.splits sum.splits if_splits)
  have 6: "F \<noteq> 0 \<longrightarrow>
      on_step w p (EvalCallback b None (ef\<lparr>eval_freq := F\<rparr>)) \<noteq> Inl ZeroDivisionError"
    by (auto simp: EvalCallback_run_evaluation_def EvalCallback_new_best_def Let_def
        split: option.splits sum.splits if_splits)
  from 1 2 3 4 5 6 show ?thesis by blast
qed

theorem frequency_zero_raises_witness:
  "on_step world0 None (CheckpointCallback_init 0 (Some ''ckpt'') ''rl_model'' 1 :: nat callback) =
     Inl ZeroDivisionError \<and>
   (EvalCallback_init (GymEnv 1) None 5 0 None None True 1 :: error + nat callback) =
     Inr (EvalCallback (BaseCallback_init 1) None
            (eval_fields0\<lparr>eval_freq := 0, best_model_save_path := None\<rparr>)) \<and>
   on_step world0 None
     (EvalCallback (BaseCallback_init 1) None
        (eval_fields0\<lparr>eval_freq := 0, best_model_save_path := None\<rparr>) :: nat callback) =
     Inl ZeroDivisionError"
proof -
  have c: "(EvalCallback_init (GymEnv 1) None 5 0 None None True 1 :: error + nat callback) =
     Inr (EvalCallback (BaseCallback_init 1) None
            (eval_fields0\<lparr>eval_freq := 0, best_model_save_path := None\<rparr>))"
    by (simp add: EvalCallback_init_def eval_fields0_def)
  note t = frequency_zero_raises
      [where w = world0 and p = None and sp = "Some ''ckpt''" and np = "''rl_model''" and v = 1
         and e = "GymEnv 1" and c = None and n = 5 and lp = None and bp = None and det = True
         and cb = "EvalCallback (BaseCallback_init 1) None
             (eval_fields0\<lparr>eval_freq := 0, best_model_save_path := None\<rparr>)"]
  have a: "on_step world0 None
      (CheckpointCallback_init 0 (Some ''ckpt'') ''rl_model'' 1 :: nat callback) =
     Inl ZeroDivisionError"
    by (rule t [THEN conjunct1])
  have b: "on_step world0 None
     (EvalCallback (BaseCallback_init 1) None
        (eval_fields0\<lparr>eval_freq := 0, best_model_save_path := None\<rparr>) :: nat callback) =
     Inl ZeroDivisionError"
    by (rule t [THEN conjunct2, THEN conjunct1, THEN mp]) (rule c)
  from a b c show ?thesis by blast
qed

subsection \<open>The lifecycle calls of a list of callbacks\<close>

lemma init_loop_for_each:
  "CallbackList_init_callback_loop w m cs = for_each (\<lambda>w c. init_callback w m c) w cs"
  by (induction cs arbitrary: w) (auto split: sum.splits)

lemma training_start_loop_for_each:
  "CallbackList_on_training_start_loop w l g cs = for_each (\<lambda>w c. on_training_start w l g c) w cs"
  by (induction cs arbitrary: w) (auto split: sum.splits)

lemma training_end_loop_for_each:
  "CallbackList_on_training_end_loop w cs = for_each on_training_end w cs"
  by (induction cs arbitrary: w) (auto split: sum.splits)

text \<open>
  Claim C2, as the code has it. A \<open>CallbackList\<close> passes \<open>init_callback\<close>,
  \<open>on_training_start\<close>, the step and \<open>on_training_end\<close> on to every child, in the order
  of the list, each child in the world its predecessors left.
\<close>

theorem CallbackList_fans_out:
  "init_callback w m (CallbackList b cs) =
     (case for_each (\<lambda>w c. init_callback w m c) w cs of
        Inl e \<Rightarrow> Inl e
      | Inr (cs', w') \<Rightarrow> Inr (CallbackList (bind_model w m b) cs', w')) \<and>
   on_training_start w l g (CallbackList b cs) =
     (case for_each (\<lambda>w c. on_training_start w l g c) w cs of
        Inl e \<Rightarrow> Inl e
      | Inr (cs', w') \<Rightarrow> Inr (CallbackList (set_locals l g b) cs', w')) \<and>
   on_step w p (CallbackList b cs) =
     (case step_children w cs of
        Inl e \<Rightarrow> Inl e
      | Inr (rs, cs', w') \<Rightarrow> Inr (list_all id rs, CallbackList b cs', w')) \<and>
   on_training_end w (CallbackList b cs) =
     (case for_each on_training_end w cs of
        Inl e \<Rightarrow> Inl e
      | Inr (cs', w') \<Rightarrow> Inr (CallbackList b cs', w'))"
proof (intro conjI)
  show "init_callback w m (CallbackList b cs) =
     (case for_each (\<lambda>w c. init_callback w m c) w cs of
        Inl e \<Rightarrow> Inl e
      | Inr (cs', w') \<Rightarrow> Inr (CallbackList (bind_model w m b) cs', w'))"
    by (simp add: init_loop_for_each)
  show "on_training_start w l g (CallbackList b cs) =
     (case for_each (\<lambda>w c. on_training_start w l g c) w cs of
        Inl e \<Rightarrow> Inl e
      | Inr (cs', w') \<Rightarrow> Inr (CallbackList (set_locals l g b) cs', w'))"
    by (simp add: training_start_loop_for_each)
  show "on_step w p (CallbackList b cs) =
     (case step_children w cs of
        Inl e \<Rightarrow> Inl e
      | Inr (rs, cs', w') \<Rightarrow> Inr (list_all id rs, CallbackList b cs', w'))"
    by (simp add: loop_trace split: sum.splits)
  show "on_training_end w (CallbackList b cs) =
     (case for_each on_training_end w cs of
        Inl e \<Rightarrow> Inl e
      | Inr (cs', w') \<Rightarrow> Inr (CallbackList b cs', w'))"
    by (simp add: training_end_loop_for_each)
qed

theorem CallbackList_fans_out_witness:
  "for_each (\<lambda>w c. init_callback w 0 c) world0 [rollout_counter, checkpoint0] =
     Inr ([UserCallback (bind_model world0 0 (BaseCallback_init 0)) 0 rollout_counter_methods,
           CheckpointCallback (bind_model world0 0 (BaseCallback_init 0)) 2 (Some ''ckpt'') ''rl_model''],
          world0\<lparr>effects := [Makedirs ''ckpt'']\<rparr>) \<and>
   init_callback world0 0 (CallbackList_init [rollout_counter, checkpoint0]) =
     Inr (CallbackList (bind_model world0 0 (BaseCallback_init 0))
            [UserCallback (bind_model world0 0 (BaseCallback_init 0)) 0 rollout_counter_methods,
             CheckpointCallback (bind_model world0 0 (BaseCallback_init 0)) 2 (Some ''ckpt'')
               ''rl_model''],
          world0\<lparr>effects := [Makedirs ''ckpt'']\<rparr>)"
proof -
  have f: "for_each (\<lambda>w c. init_callback w 0 c) world0 [rollout_counter, checkpoint0] =
     Inr ([UserCallback (bind_model world0 0 (BaseCallback_init 0)) 0 rollout_counter_methods,
           CheckpointCallback (bind_model world0 0 (BaseCallback_init 0)) 2 (Some ''ckpt'') ''rl_model''],
          world0\<lparr>effects := [Makedirs ''ckpt'']\<rparr>)"
    by (simp add: rollout_counter_def rollout_counter_methods_def checkpoint0_def
        CheckpointCallback_init_def CheckpointCallback_init_callback_hook_def os_makedirs_def
        emit_def bind_model_def world0_def)
  note t = CallbackList_fans_out
    [of world0 0 "BaseCallback_init 0" "[rollout_counter, checkpoint0]", THEN conjunct1]
  show ?thesis
    using t f by (simp add: CallbackList_init_def)
qed

text \<open>
  Claim C2 as the specification states it fails for the two rollout calls:
  \<open>CallbackList\<close> overrides neither \<open>_on_rollout_start\<close> nor \<open>_on_rollout_end\<close>, so a
  child that counts the rollouts it is told of is told of none when it stands in a list.
\<close>

theorem CallbackList_rollout_not_propagated:
  "on_rollout_start world0 rollout_counter =
     Inr (UserCallback (BaseCallback_init 0) 1 rollout_counter_methods, world0) \<and>
   on_rollout_start world0 (CallbackList_init [rollout_counter]) =
     Inr (CallbackList_init [rollout_counter], world0) \<and>
   on_rollout_start world0 (CallbackList_init [rollout_counter]) \<noteq>
     (case for_each on_rollout_start world0 [rollout_counter] of
        Inl e \<Rightarrow> Inl e
      | Inr (cs', w') \<Rightarrow> Inr (CallbackList (BaseCallback_init 0) cs', w')) \<and>
   on_rollout_end world0 rollout_counter =
     Inr (UserCallback (BaseCallback_init 0) 1 rollout_counter_methods, world0) \<and>
   on_rollout_end world0 (CallbackList_init [rollout_counter]) =
     Inr (CallbackList_init [rollout_counter], world0) \<and>
   on_rollout_end world0 (CallbackList_init [rollout_counter]) \<noteq>
     (case for_each on_rollout_end world0 [rollout_counter] of
        Inl e \<Rightarrow> Inl e
      | Inr (cs', w') \<Rightarrow> Inr (CallbackList (BaseCallback_init 0) cs', w'))"
  by (simp add: rollout_counter_def rollout_counter_methods_def CallbackList_init_def)

subsection \<open>An event callback with no child\<close>

text \<open>
  Claim C3 fails on the code. \<open>EventCallback.__init__\<close> and \<open>_on_event\<close> test
  \<open>self.callback\<close> against \<open>None\<close>, but \<open>init_callback\<close> and \<open>_on_training_start\<close> call
  a method on it without the test: on an \<open>EvalCallback\<close> or \<open>EveryNTimesteps\<close> with no
  child both raise, with \<open>AttributeError\<close> unless a directory hook has failed before,
  while \<open>_on_event\<close> returns \<open>True\<close>.
\<close>

theorem EventCallback_without_child_fails:
  "isl (init_callback w m (EvalCallback b None ef)) \<and>
   (best_model_save_path ef = None \<and> log_path ef = None \<longrightarrow>
      init_callback w m (EvalCallback b None ef) = Inl AttributeError) \<and>
   init_callback w m (EveryNTimesteps b None n lt) = Inl AttributeError \<and>
   on_training_start w l g (EvalCallback b None ef) = Inl AttributeError \<and>
   on_training_start w l g (EveryNTimesteps b None n lt) = Inl AttributeError \<and>
   on_event w (EvalCallback b None ef) = Inr (True, EvalCallback b None ef, w) \<and>
   on_event w (EveryNTimesteps b None n lt) = Inr (True, EveryNTimesteps b None n lt, w)"
  by (auto simp: EvalCallback_init_callback_hook_def split: sum.splits option.splits)

theorem EventCallback_without_child_fails_witness:
  "(EvalCallback_init (GymEnv 1) None 5 10000 None None True 1 :: error + nat callback) =
     Inr (EvalCallback (BaseCallback_init 1) None
            (eval_fields0\<lparr>eval_freq := 10000, best_model_save_path := None\<rparr>)) \<and>
   init_callback world0 0
     (EvalCallback (BaseCallback_init 1) None
        (eval_fields0\<lparr>eval_freq := 10000, best_model_save_path := None\<rparr>) :: nat callback) =
     Inl AttributeError"
proof -
  have c: "(EvalCallback_init (GymEnv 1) None 5 10000 None None True 1 :: error + nat callback) =
     Inr (EvalCallback (BaseCallback_init 1) None
            (eval_fields0\<lparr>eval_freq := 10000, best_model_save_path := None\<rparr>))"
    by (simp add: EvalCallback_init_def eval_fields0_def)
  have p: "best_model_save_path (eval_fields0\<lparr>eval_freq := 10000, best_model_save_path := None\<rparr>) = None \<and>
      log_path (eval_fields0\<lparr>eval_freq := 10000, best_model_save_path := None\<rparr>) = None"
    by (simp add: eval_fields0_def)
  have "init_callback world0 0
     (EvalCallback (BaseCallback_init 1) None
        (eval_fields0\<lparr>eval_freq := 10000, best_model_save_path := None\<rparr>) :: nat callback) =
     Inl AttributeError"
    by (rule EventCallback_without_child_fails [THEN conjunct2, THEN conjunct1, THEN mp]) (rule p)
  with c show ?thesis by blast
qed

subsection \<open>Consecutive calls\<close>

lemma tick_bound:
  "model b = Some m \<Longrightarrow>
     tick w b = Inr (b\<lparr>n_calls := n_calls b + 1, num_timesteps := model_num_timesteps w m + 1\<rparr>)"
  by (simp add: tick_def)

lemma run_calls_snoc:
  "run_calls w m cb (ts @ [t]) =
     (case run_calls w m cb ts of
        Inl e \<Rightarrow> Inl e
      | Inr (rs, cb', w') \<Rightarrow>
          (case call (set_num_timesteps m t w') None cb' of
             Inl e \<Rightarrow> Inl e
           | Inr (r, cb'', w'') \<Rightarrow> Inr (rs @ [r], cb'', w'')))"
  by (induction ts arbitrary: w cb) (auto split: sum.splits)

lemma saves_simps [simp]:
  "saves (emit (ModelSave m p) w) = saves w @ [ModelSave m p]"
  "saves (emit (Print msg) w) = saves w"
  "saves (print_if c msg w) = saves w"
  "saves (set_num_timesteps m t w) = saves w"
  by (simp_all add: saves_def emit_def print_if_def set_num_timesteps_def)

lemma model_num_timesteps_set [simp]:
  "model_num_timesteps (set_num_timesteps m t w) m = t"
  by (simp add: set_num_timesteps_def)

subsection \<open>Checkpoints\<close>

lemma checkpoint_call:
  assumes "model b = Some m" "F \<noteq> 0"
  shows "call w p (CheckpointCallback b F (Some dir) np) =
     Inr (True,
       CheckpointCallback
         (b\<lparr>n_calls := n_calls b + 1, num_timesteps := model_num_timesteps w m + 1\<rparr>) F (Some dir) np,
       if (n_calls b + 1) mod F = 0
       then print_if (verbose b > 1)
              (MsgSavingCheckpoint (checkpoint_path dir np (model_num_timesteps w m + 1)))
              (emit (ModelSave m (checkpoint_path dir np (model_num_timesteps w m + 1))) w)
       else w)"
  using assms
  by (simp add: call.simps tick_bound CheckpointCallback_on_step_def checkpoint_path_def Let_def)

lemma upt_div_Suc:
  assumes "0 < (k::nat)"
  shows "[1..<Suc n div k + 1] =
           (if Suc n mod k = 0 then [1..<n div k + 1] @ [Suc n div k] else [1..<n div k + 1])"
  using assms by (simp add: div_Suc)

lemma save_index_in_range:
  assumes "0 < (k::nat)" "1 \<le> j" "j \<le> n div k"
  shows "j * k - 1 < n"
proof -
  have "j * k \<le> (n div k) * k" using assms(3) by simp
  also have "\<dots> \<le> n" by simp
  finally have "j * k \<le> n" .
  moreover have "0 < j * k" using assms by simp
  ultimately show ?thesis by linarith
qed

lemma checkpoint_run:
  assumes "0 < F" "model b = Some m" "n_calls b = 0"
  shows "\<exists>b' w'.
     run_calls w m (CheckpointCallback b F (Some dir) np :: 'u callback) ts =
       Inr (replicate (length ts) True, CheckpointCallback b' F (Some dir) np, w') \<and>
     model b' = Some m \<and> n_calls b' = int (length ts) \<and> verbose b' = verbose b \<and>
     saves w' = saves w @
       map (\<lambda>j. ModelSave m (checkpoint_path dir np (ts ! (j * nat F - 1) + 1)))
         [1..<length ts div nat F + 1]"
proof (induction ts rule: rev_induct)
  case Nil
  show ?case using assms by simp
next
  case (snoc t ts)
  then obtain b' w' where
    run: "run_calls w m (CheckpointCallback b F (Some dir) np :: 'u callback) ts =
       Inr (replicate (length ts) True, CheckpointCallback b' F (Some dir) np, w')" and
    b': "model b' = Some m" "n_calls b' = int (length ts)" "verbose b' = verbose b" and
    sv: "saves w' = saves w @
       map (\<lambda>j. ModelSave m (checkpoint_path dir np (ts ! (j * nat F - 1) + 1)))
         [1..<length ts div nat F + 1]"
    by blast
  let ?T = "length ts"
  let ?k = "nat F"
  have k: "0 < ?k" using assms(1) by simp
  have F0: "F \<noteq> 0" using assms(1) by simp
  let ?w1 = "set_num_timesteps m t w'"
  let ?b2 = "b'\<lparr>n_calls := n_calls b' + 1, num_timesteps := model_num_timesteps ?w1 m + 1\<rparr>"
  let ?w2 = "if (n_calls b' + 1) mod F = 0
       then print_if (verbose b' > 1)
              (MsgSavingCheckpoint (checkpoint_path dir np (model_num_timesteps ?w1 m + 1)))
              (emit (ModelSave m (checkpoint_path dir np (model_num_timesteps ?w1 m + 1))) ?w1)
       else ?w1"
  have c: "call ?w1 None (CheckpointCallback b' F (Some dir) np) =
      Inr (True, CheckpointCallback ?b2 F (Some dir) np, ?w2)"
    by (rule checkpoint_call [OF b'(1) F0])
  have r: "run_calls w m (CheckpointCallback b F (Some dir) np :: 'u callback) (ts @ [t]) =
      Inr (replicate (length (ts @ [t])) True, CheckpointCallback ?b2 F (Some dir) np, ?w2)"
    by (simp add: run_calls_snoc run c replicate_append_same)
  have dvd_iff: "((n_calls b' + 1) mod F = 0) = (Suc ?T mod ?k = 0)"
  proof -
    have "n_calls b' + 1 = int (Suc ?T)" using b'(2) by simp
    moreover have "F = int ?k" using assms(1) by simp
    ultimately have "(n_calls b' + 1) mod F = int (Suc ?T mod ?k)"
      by (simp only: zmod_int)
    then show ?thesis by simp
  qed
  have old: "map (\<lambda>j. ModelSave m (checkpoint_path dir np ((ts @ [t]) ! (j * ?k - 1) + 1)))
               [1..<?T div ?k + 1] =
             map (\<lambda>j. ModelSave m (checkpoint_path dir np (ts ! (j * ?k - 1) + 1)))
               [1..<?T div ?k + 1]"
  proof (rule map_cong [OF refl])
    fix j assume "j \<in> set [1..<?T div ?k + 1]"
    then have "1 \<le> j" "j \<le> ?T div ?k" by auto
    then have "j * ?k - 1 < ?T" by (rule save_index_in_range [OF k])
    then show "ModelSave m (checkpoint_path dir np ((ts @ [t]) ! (j * ?k - 1) + 1)) =
               ModelSave m (checkpoint_path dir np (ts ! (j * ?k - 1) + 1))"
      by (simp add: nth_append)
  qed
  have s: "saves ?w2 = saves w @
       map (\<lambda>j. ModelSave m (checkpoint_path dir np ((ts @ [t]) ! (j * ?k - 1) + 1)))
         [1..<length (ts @ [t]) div ?k + 1]"
  proof (cases "Suc ?T mod ?k = 0")
    case True
    then have "Suc ?T div ?k * ?k = Suc ?T"
      by (metis div_mult_mod_eq add.right_neutral)
    then have last_idx: "Suc ?T div ?k * ?k - 1 = ?T" by simp
    have fj: "ModelSave m (checkpoint_path dir np ((ts @ [t]) ! (Suc ?T div ?k * ?k - 1) + 1)) =
        ModelSave m (checkpoint_path dir np (t + 1))"
      by (simp only: last_idx nth_append_length)
    have "saves ?w2 = saves w' @ [ModelSave m (checkpoint_path dir np (t + 1))]"
      using True dvd_iff by simp
    also have "\<dots> = saves w @
       map (\<lambda>j. ModelSave m (checkpoint_path dir np ((ts @ [t]) ! (j * ?k - 1) + 1)))
         ([1..<?T div ?k + 1] @ [Suc ?T div ?k])"
      by (simp only: sv old [symmetric] fj map_append list.map append_assoc)
    also have "([1..<?T div ?k + 1] @ [Suc ?T div ?k]) = [1..<length (ts @ [t]) div ?k + 1]"
      using upt_div_Suc [OF k, of ?T] True by simp
    finally show ?thesis .
  next
    case False
    have "saves ?w2 = saves w'"
      using False dvd_iff by simp
    also have "\<dots> = saves w @
       map (\<lambda>j. ModelSave m (checkpoint_path dir np ((ts @ [t]) ! (j * ?k - 1) + 1)))
         [1..<?T div ?k + 1]"
      by (simp only: sv old)
    also have "[1..<?T div ?k + 1] = [1..<length (ts @ [t]) div ?k + 1]"
      using upt_div_Suc [OF k, of ?T] False by simp
    finally show ?thesis .
  qed
  have "model ?b2 = Some m \<and> n_calls ?b2 = int (length (ts @ [t])) \<and> verbose ?b2 = verbose b"
    using b' by simp
  with r s show ?case by blast
qed

text \<open>
  Claim C8. A \<open>CheckpointCallback\<close> with a save frequency \<open>F > 0\<close> and a save directory,
  bound to a trainer and not yet called, is called \<open>T\<close> times in a row (\<open>T\<close> is the length
  of the list of the trainer's timesteps): every call returns \<open>True\<close>, and the saves
  requested are exactly those of the calls \<open>F, 2F, ...\<close>, \<open>T div F\<close> of them, the one of call
  \<open>jF\<close> to \<open>os.path.join\<close> of the directory and \<open>{prefix}_{num_timesteps}_steps\<close> with
  the timestep counter of that call. Whatever its state, \<open>_on_step\<close> returns \<open>True\<close> when
  it returns.
\<close>

theorem CheckpointCallback_saves_every_save_freq_calls:
  assumes "0 < F" and "model b = Some m" and "n_calls b = 0"
  shows "(\<exists>b' w'.
     run_calls w m (CheckpointCallback b F (Some dir) np :: 'u callback) ts =
       Inr (replicate (length ts) True, CheckpointCallback b' F (Some dir) np, w') \<and>
     saves w' = saves w @
       map (\<lambda>j. ModelSave m
              (os_path_join dir (np @ ''_'' @ str_int (ts ! (j * nat F - 1) + 1) @ ''_steps'')))
         [1..<length ts div nat F + 1] \<and>
     length (saves w') = length (saves w) + length ts div nat F) \<and>
   (\<forall>w0 p b0 sp (r::bool) (cb'::'u callback) w1.
      on_step w0 p (CheckpointCallback b0 F sp np) = Inr (r, cb', w1) \<longrightarrow> r)"
proof -
  from checkpoint_run [OF assms, of w dir np ts] obtain b' w' where
    run: "run_calls w m (CheckpointCallback b F (Some dir) np :: 'u callback) ts =
       Inr (replicate (length ts) True, CheckpointCallback b' F (Some dir) np, w')" and
    sv: "saves w' = saves w @
       map (\<lambda>j. ModelSave m (checkpoint_path dir np (ts ! (j * nat F - 1) + 1)))
         [1..<length ts div nat F + 1]"
    by blast
  from sv have len: "length (saves w') = length (saves w) + length ts div nat F"
    by simp
  have "\<forall>w0 p b0 sp (r::bool) (cb'::'u callback) w1.
      on_step w0 p (CheckpointCallback b0 F sp np) = Inr (r, cb', w1) \<longrightarrow> r"
    by (auto simp: CheckpointCallback_on_step_def Let_def split: if_splits option.splits sum.splits)
  with run sv [unfolded checkpoint_path_def] len show ?thesis by blast
qed

lemma str_int_2_4: "str_int 2 = ''2''" "str_int 4 = ''4''"
  by (simp_all add: str_int_def str_nat.simps digit_char_def)

theorem CheckpointCallback_saves_every_save_freq_calls_witness:
  "\<exists>b' w'.
     run_calls world0 0
       (CheckpointCallback ((BaseCallback_init 0)\<lparr>model := Some 0\<rparr>) 2 (Some ''ckpt'') ''rl_model''
          :: nat callback) [0, 1, 2, 3] =
       Inr ([True, True, True, True], CheckpointCallback b' 2 (Some ''ckpt'') ''rl_model'', w') \<and>
     saves w' = [ModelSave 0 ''ckpt/rl_model_2_steps'', ModelSave 0 ''ckpt/rl_model_4_steps'']"
proof -
  have pre: "(0::int) < 2" "model ((BaseCallback_init 0)\<lparr>model := Some 0\<rparr>) = Some 0"
    "n_calls ((BaseCallback_init 0)\<lparr>model := Some 0\<rparr>) = 0"
    by (simp_all add: BaseCallback_init_def)
  have r: "[1..<length [0::int, 1, 2, 3] div nat 2 + 1] = [1, 2]"
    by (simp add: upt_rec)
  have s: "saves world0 @
       map (\<lambda>j. ModelSave 0
              (os_path_join ''ckpt''
                 (''rl_model'' @ ''_'' @ str_int ([0, 1, 2, 3] ! (j * nat 2 - 1) + 1) @ ''_steps'')))
         [1..<length [0::int, 1, 2, 3] div nat 2 + 1] =
       [ModelSave 0 ''ckpt/rl_model_2_steps'', ModelSave 0 ''ckpt/rl_model_4_steps'']"
    unfolding r by (simp add: saves_def world0_def os_path_join_def str_int_2_4)
  have rep: "replicate (length [0::int, 1, 2, 3]) True = [True, True, True, True]"
    by (simp add: numeral_eq_Suc)
  from CheckpointCallback_saves_every_save_freq_calls
    [OF pre, of world0 "''ckpt''" "''rl_model''" "[0, 1, 2, 3]", THEN conjunct1, unfolded s rep]
  show ?thesis
    by blast
qed

subsection \<open>Every n timesteps\<close>

lemma every_n_quiet_call:
  assumes "model b = Some m" "\<not> n \<le> model_num_timesteps w m + 1 - l"
  shows "call w p (EveryNTimesteps b child n l) =
     Inr (True,
       EveryNTimesteps (b\<lparr>n_calls := n_calls b + 1, num_timesteps := model_num_timesteps w m + 1\<rparr>)
         child n l, w)"
  using assms by (simp add: call.simps tick_bound)

lemma every_n_quiet_run:
  assumes "model b = Some m" "list_all (\<lambda>t. t + 1 - l < n) ts"
  shows "\<exists>b' w'.
     run_calls w m (EveryNTimesteps b child n l :: 'u callback) ts =
       Inr (replicate (length ts) True, EveryNTimesteps b' child n l, w') \<and>
     model b' = Some m \<and> effects w' = effects w"
  using assms
proof (induction ts arbitrary: b w)
  case Nil
  then show ?case by simp
next
  case (Cons t ts)
  let ?w1 = "set_num_timesteps m t w"
  let ?b1 = "b\<lparr>n_calls := n_calls b + 1, num_timesteps := model_num_timesteps ?w1 m + 1\<rparr>"
  have q: "\<not> n \<le> model_num_timesteps ?w1 m + 1 - l"
    using Cons.prems(2) by simp
  have c: "call ?w1 None (EveryNTimesteps b child n l :: 'u callback) =
      Inr (True, EveryNTimesteps ?b1 child n l, ?w1)"
    by (rule every_n_quiet_call [OF Cons.prems(1) q])
  have "model ?b1 = Some m" using Cons.prems(1) by simp
  moreover have "list_all (\<lambda>t. t + 1 - l < n) ts" using Cons.prems(2) by simp
  ultimately obtain b' w' where
    run: "run_calls ?w1 m (EveryNTimesteps ?b1 child n l :: 'u callback) ts =
       Inr (replicate (length ts) True, EveryNTimesteps b' child n l, w')" and
    rest: "model b' = Some m" "effects w' = effects ?w1"
    using Cons.IH [of ?b1 ?w1] by blast
  have "run_calls w m (EveryNTimesteps b child n l :: 'u callback) (t # ts) =
       Inr (replicate (length (t # ts)) True, EveryNTimesteps b' child n l, w')"
    using c run by simp
  moreover have "effects w' = effects w"
    using rest(2) by (simp add: set_num_timesteps_def)
  ultimately show ?case using rest(1) by blast
qed

text \<open>
  Claim C7. \<open>EveryNTimesteps\<close> starts with \<open>last_time_trigger = 0\<close>. Its step calls the
  child, with \<open>last_time_trigger\<close> set to the timestep counter, and returns the child's
  result when \<open>num_timesteps - last_time_trigger >= n_steps\<close>; otherwise it returns
  \<open>True\<close> and changes nothing. So a fresh object stays untouched, and its child uncalled,
  through every call whose timestep counter is below \<open>n_steps\<close>, and the call whose
  counter reaches \<open>n_steps\<close> calls the child.
\<close>

theorem EveryNTimesteps_triggers_every_n_steps:
  "EveryNTimesteps_init S child = EveryNTimesteps (BaseCallback_init 0) child S 0 \<and>
   (S \<le> num_timesteps b - l \<longrightarrow>
      on_step w p (EveryNTimesteps b (Some c) S l) =
        (case call w (Some (EveryNTimesteps b (Some c) S (num_timesteps b))) c of
           Inl e \<Rightarrow> Inl e
         | Inr (r, c', w') \<Rightarrow> Inr (r, EveryNTimesteps b (Some c') S (num_timesteps b), w'))) \<and>
   (\<not> S \<le> num_timesteps b - l \<longrightarrow>
      on_step w p (EveryNTimesteps b child S l) = Inr (True, EveryNTimesteps b child S l, w)) \<and>
   (model b = Some m \<and> list_all (\<lambda>t. t + 1 < S) ts \<longrightarrow>
      (\<exists>b' w'.
         run_calls w m (EveryNTimesteps b child S 0 :: 'u callback) ts =
           Inr (replicate (length ts) True, EveryNTimesteps b' child S 0, w') \<and>
         model b' = Some m \<and> effects w' = effects w)) \<and>
   (model b = Some m \<and> S \<le> model_num_timesteps w m + 1 \<longrightarrow>
      call w p (EveryNTimesteps b (Some c) S 0) =
        (case call w
           (Some (EveryNTimesteps
              (b\<lparr>n_calls := n_calls b + 1, num_timesteps := model_num_timesteps w m + 1\<rparr>)
              (Some c) S (model_num_timesteps w m + 1))) c of
           Inl e \<Rightarrow> Inl e
         | Inr (r, c', w') \<Rightarrow>
             Inr (r,
               EveryNTimesteps
                 (b\<lparr>n_calls := n_calls b + 1, num_timesteps := model_num_timesteps w m + 1\<rparr>)
                 (Some c') S (model_num_timesteps w m + 1), w')))"
proof (intro conjI impI)
  show "EveryNTimesteps_init S child = EveryNTimesteps (BaseCallback_init 0) child S 0"
    by (simp add: EveryNTimesteps_init_def)
next
  assume "S \<le> num_timesteps b - l"
  then show "on_step w p (EveryNTimesteps b (Some c) S l) =
        (case call w (Some (EveryNTimesteps b (Some c) S (num_timesteps b))) c of
           Inl e \<Rightarrow> Inl e
         | Inr (r, c', w') \<Rightarrow> Inr (r, EveryNTimesteps b (Some c') S (num_timesteps b), w'))"
    by simp
next
  assume "\<not> S \<le> num_timesteps b - l"
  then show "on_step w p (EveryNTimesteps b child S l) = Inr (True, EveryNTimesteps b child S l, w)"
    by simp
next
  assume a: "model b = Some m \<and> list_all (\<lambda>t. t + 1 < S) ts"
  then have "list_all (\<lambda>t. t + 1 - 0 < S) ts" by simp
  with a show "\<exists>b' w'.
         run_calls w m (EveryNTimesteps b child S 0 :: 'u callback) ts =
           Inr (replicate (length ts) True, EveryNTimesteps b' child S 0, w') \<and>
         model b' = Some m \<and> effects w' = effects w"
    using every_n_quiet_run [of b m 0 S ts w child] by blast
next
  assume "model b = Some m \<and> S \<le> model_num_timesteps w m + 1"
  then show "call w p (EveryNTimesteps b (Some c) S 0) =
        (case call w
           (Some (EveryNTimesteps
              (b\<lparr>n_calls := n_calls b + 1, num_timesteps := model_num_timesteps w m + 1\<rparr>)
              (Some c) S (model_num_timesteps w m + 1))) c of
           Inl e \<Rightarrow> Inl e
         | Inr (r, c', w') \<Rightarrow>
             Inr (r,
               EveryNTimesteps
                 (b\<lparr>n_calls := n_calls b + 1, num_timesteps := model_num_timesteps w m + 1\<rparr>)
                 (Some c') S (model_num_timesteps w m + 1), w'))"
    by (simp add: call.simps [of w p "EveryNTimesteps b (Some c) S 0"] tick_bound)
qed

theorem EveryNTimesteps_triggers_every_n_steps_witness:
  "list_all (\<lambda>t. t + 1 < 3) [0, 1::int] \<and>
   (\<exists>b' w'.
      run_calls world0 0
        (EveryNTimesteps ((BaseCallback_init 0)\<lparr>model := Some 0\<rparr>) (Some (answer True)) 3 0) [0, 1] =
        Inr ([True, True], EveryNTimesteps b' (Some (answer True)) 3 0, w') \<and>
      effects w' = effects world0) \<and>
   on_step world0 None
     (EveryNTimesteps ((BaseCallback_init 0)\<lparr>model := Some 0, num_timesteps := 3\<rparr>)
        (Some (answer True)) 3 0) =
     Inr (True,
       EveryNTimesteps ((BaseCallback_init 0)\<lparr>model := Some 0, num_timesteps := 3\<rparr>)
         (Some (UserCallback
            ((BaseCallback_init 0)\<lparr>model := Some 0, n_calls := 1, num_timesteps := 1\<rparr>) 1
            (answer_methods True))) 3 3,
       world0)"
proof -
  note t = EveryNTimesteps_triggers_every_n_steps
    [where S = 3 and child = "Some (answer True)" and c = "answer True" and w = world0 and p = None
       and m = 0 and ts = "[0, 1]" and l = 0]
  have la: "list_all (\<lambda>t. t + 1 < 3) [0, 1::int]"
    by simp
  have pre: "model ((BaseCallback_init 0)\<lparr>model := Some 0\<rparr>) = Some 0 \<and>
      list_all (\<lambda>t. t + 1 < 3) [0, 1::int]"
    by (simp add: BaseCallback_init_def)
  have rep: "replicate (length [0::int, 1]) True = [True, True]"
    by (simp add: numeral_eq_Suc)
  from t [where b = "(BaseCallback_init 0)\<lparr>model := Some 0\<rparr>",
      THEN conjunct2, THEN conjunct2, THEN conjunct2, THEN conjunct1, THEN mp, OF pre, unfolded rep]
  have quiet: "\<exists>b' w'.
      run_calls world0 0
        (EveryNTimesteps ((BaseCallback_init 0)\<lparr>model := Some 0\<rparr>) (Some (answer True)) 3 0) [0, 1] =
        Inr ([True, True], EveryNTimesteps b' (Some (answer True)) 3 0, w') \<and>
      effects w' = effects world0"
    by blast
  have trig: "(3::int) \<le>
      num_timesteps ((BaseCallback_init 0)\<lparr>model := Some 0, num_timesteps := 3\<rparr>) - 0"
    by simp
  have fire: "on_step world0 None
     (EveryNTimesteps ((BaseCallback_init 0)\<lparr>model := Some 0, num_timesteps := 3\<rparr>)
        (Some (answer True)) 3 0) =
     Inr (True,
       EveryNTimesteps ((BaseCallback_init 0)\<lparr>model := Some 0, num_timesteps := 3\<rparr>)
         (Some (UserCallback
            ((BaseCallback_init 0)\<lparr>model := Some 0, n_calls := 1, num_timesteps := 1\<rparr>) 1
            (answer_methods True))) 3 3,
       world0)"
    using t [where b = "(BaseCallback_init 0)\<lparr>model := Some 0, num_timesteps := 3\<rparr>",
      THEN conjunct2, THEN conjunct1, THEN mp, OF trig]
    by (simp add: call.simps tick_def answer_def answer_methods_def BaseCallback_init_def world0_def)
  from la quiet fire show ?thesis by blast
qed

subsection \<open>The best mean reward of an evaluation callback\<close>

lemma saves_emit: "saves (emit e w) = (if is_save e then saves w @ [e] else saves w)"
  by (simp add: saves_def emit_def)

lemma saves_n_evaluations [simp]: "saves (w\<lparr>n_evaluations := k\<rparr>) = saves w"
  by (simp add: saves_def)

lemma evaluate_policy_emit [simp]:
  "evaluate_policy (emit e w) = evaluate_policy w" "n_evaluations (emit e w) = n_evaluations w"
  by (simp_all add: emit_def)

lemma run_evaluation_facts:
  assumes "EvalCallback_run_evaluation w b ef = Inr (ev, ef1, w1)"
  shows "ev = evaluate_policy w (n_evaluations w)"
    and "best_mean_reward ef1 = best_mean_reward ef"
    and "eval_freq ef1 = eval_freq ef"
    and "best_model_save_path ef1 = best_model_save_path ef"
    and "saves w1 = saves w"
  using assms
  by (auto simp: EvalCallback_run_evaluation_def Let_def saves_emit split: option.splits)

lemma new_best_facts:
  assumes "EvalCallback_new_best w b ef mean = Inr (ef2, w2)"
  shows "best_mean_reward ef2 = mean" and "eval_freq ef2 = eval_freq ef"
  using assms
  by (auto simp: EvalCallback_new_best_def Let_def split: option.splits)

lemma on_event_eval:
  "on_event w (EvalCallback b child ef) = Inr (r, cb', w') \<Longrightarrow>
     \<exists>child'. cb' = EvalCallback b child' ef"
  by (cases child) (auto split: sum.splits)

lemma eval_step:
  assumes "on_step w p (EvalCallback b child ef) = Inr (r, cb', w')"
  shows "\<exists>child' ef'. cb' = EvalCallback b child' ef' \<and> eval_freq ef' = eval_freq ef \<and>
     (if eval_freq ef \<noteq> 0 \<and> n_calls b mod eval_freq ef = 0 \<and>
         float_gt (mean_reward (evaluate_policy w (n_evaluations w))) (best_mean_reward ef)
      then best_mean_reward ef' = mean_reward (evaluate_policy w (n_evaluations w))
      else best_mean_reward ef' = best_mean_reward ef \<and> child' = child \<and> r \<and> saves w' = saves w)"
proof (cases "eval_freq ef \<noteq> 0 \<and> n_calls b mod eval_freq ef = 0")
  case False
  with assms show ?thesis by (auto split: if_splits)
next
  case due: True
  with assms obtain ev ef1 w1 where
    ev: "EvalCallback_run_evaluation w b ef = Inr (ev, ef1, w1)"
    by (auto split: sum.splits)
  note f = run_evaluation_facts [OF ev]
  show ?thesis
  proof (cases "float_gt (mean_reward ev) (best_mean_reward ef1)")
    case False
    with assms due ev have "cb' = EvalCallback b child ef1" "r" "w' = w1"
      by auto
    with False f due show ?thesis by auto
  next
    case gt: True
    with assms due ev obtain ef2 w2 where
      nb: "EvalCallback_new_best w1 b ef1 (mean_reward ev) = Inr (ef2, w2)"
      by (auto split: sum.splits)
    note g = new_best_facts [OF nb]
    from assms due ev gt nb have "\<exists>child'. cb' = EvalCallback b child' ef2"
      by (auto simp del: on_event.simps split: if_splits dest: on_event_eval)
    with gt f g due show ?thesis by auto
  qed
qed

lemma eval_step_mono:
  assumes "on_step w p (EvalCallback b child ef) = Inr (r, cb', w')"
  shows "\<exists>child' ef'. cb' = EvalCallback b child' ef' \<and>
     (best_mean_reward ef' = best_mean_reward ef \<or>
      float_lt (best_mean_reward ef) (best_mean_reward ef')) \<and>
     (best_mean_reward ef' \<noteq> best_mean_reward ef \<longrightarrow>
        eval_freq ef \<noteq> 0 \<and> n_calls b mod eval_freq ef = 0 \<and>
        float_gt (mean_reward (evaluate_policy w (n_evaluations w))) (best_mean_reward ef) \<and>
        best_mean_reward ef' = mean_reward (evaluate_policy w (n_evaluations w)))"
  using eval_step [OF assms]
  by (auto simp: float_gt_def split: if_splits)

lemma eval_call_mono:
  assumes "call w p (EvalCallback b child ef) = Inr (r, cb', w')"
  shows "\<exists>b' child' ef'. cb' = EvalCallback b' child' ef' \<and>
     (best_mean_reward ef' = best_mean_reward ef \<or>
      float_lt (best_mean_reward ef) (best_mean_reward ef'))"
proof -
  from assms obtain b1 where
    "on_step w p (EvalCallback b1 child ef) = Inr (r, cb', w')"
    by (auto simp: call.simps split: sum.splits)
  from eval_step_mono [OF this] show ?thesis by blast
qed

lemma eval_run_mono:
  "run_calls w m (EvalCallback b child ef) ts = Inr (rs, cb', w') \<Longrightarrow>
     \<exists>b' child' ef'. cb' = EvalCallback b' child' ef' \<and>
       (best_mean_reward ef' = best_mean_reward ef \<or>
        float_lt (best_mean_reward ef) (best_mean_reward ef'))"
proof (induction ts arbitrary: w b child ef rs)
  case Nil
  then show ?case by auto
next
  case (Cons t ts)
  from Cons.prems obtain r cb1 w1 rs1 where
    c: "call (set_num_timesteps m t w) None (EvalCallback b child ef) = Inr (r, cb1, w1)" and
    rest: "run_calls w1 m cb1 ts = Inr (rs1, cb', w')"
    by (auto split: sum.splits)
  from eval_call_mono [OF c] obtain b1 child1 ef1 where
    cb1: "cb1 = EvalCallback b1 child1 ef1" and
    m1: "best_mean_reward ef1 = best_mean_reward ef \<or>
         float_lt (best_mean_reward ef) (best_mean_reward ef1)"
    by blast
  from Cons.IH [OF rest [unfolded cb1]] obtain b' child' ef' where
    cb': "cb' = EvalCallback b' child' ef'" and
    m2: "best_mean_reward ef' = best_mean_reward ef1 \<or>
         float_lt (best_mean_reward ef1) (best_mean_reward ef')"
    by blast
  from m1 m2 have "best_mean_reward ef' = best_mean_reward ef \<or>
       float_lt (best_mean_reward ef) (best_mean_reward ef')"
    by (auto dest: float_lt_trans)
  with cb' show ?case by blast
qed

lemma eval_tie:
  assumes due: "eval_freq ef \<noteq> 0" "n_calls b mod eval_freq ef = 0" "n_calls b2 mod eval_freq ef = 0"
    and first: "on_step w p (EvalCallback b child ef) = Inr (r, EvalCallback b child1 ef1, w1)"
    and same: "mean_reward (evaluate_policy w2 (n_evaluations w2)) =
               mean_reward (evaluate_policy w (n_evaluations w))"
    and second: "on_step w2 p2 (EvalCallback b2 child1 ef1) = Inr (r2, cb2, w3)"
  shows "r2 \<and> saves w3 = saves w2 \<and>
         (\<exists>ef2. cb2 = EvalCallback b2 child1 ef2 \<and> best_mean_reward ef2 = best_mean_reward ef1)"
proof -
  let ?mu = "mean_reward (evaluate_policy w (n_evaluations w))"
  from eval_step [OF first] due have
    fq: "eval_freq ef1 = eval_freq ef" and
    ng: "\<not> float_gt ?mu (best_mean_reward ef1)"
    by (auto simp: float_gt_def split: if_splits)
  from eval_step [OF second] ng same fq show ?thesis
    by (auto split: if_splits)
qed

text \<open>
  Claim C4. An \<open>EvalCallback\<close> is constructed with \<open>best_mean_reward\<close> at minus
  infinity. A step leaves \<open>best_mean_reward\<close> as it was or strictly raises it, and so
  does any run of consecutive calls; it changes only at an evaluation whose mean reward is
  strictly greater than the best so far, and then to that mean. After an evaluation with
  some mean reward, the next evaluation with an equal mean returns \<open>True\<close>, leaves
  \<open>best_mean_reward\<close> and the child as they were, and requests no save.
\<close>

theorem EvalCallback_best_mean_reward_only_grows:
  "(EvalCallback_init e c n f lp bp det v = Inr cb \<longrightarrow>
      (\<exists>b0 ef0. cb = EvalCallback b0 c ef0 \<and> best_mean_reward ef0 = NegInf)) \<and>
   (on_step w p (EvalCallback b child ef) = Inr (r, cb', w') \<longrightarrow>
      (\<exists>child' ef'. cb' = EvalCallback b child' ef' \<and>
         (best_mean_reward ef' = best_mean_reward ef \<or>
          float_lt (best_mean_reward ef) (best_mean_reward ef')) \<and>
         (best_mean_reward ef' \<noteq> best_mean_reward ef \<longrightarrow>
            eval_freq ef \<noteq> 0 \<and> n_calls b mod eval_freq ef = 0 \<and>
            float_gt (mean_reward (evaluate_policy w (n_evaluations w))) (best_mean_reward ef) \<and>
            best_mean_reward ef' = mean_reward (evaluate_policy w (n_evaluations w))))) \<and>
   (run_calls w m (EvalCallback b child ef) ts = Inr (rs, cb', w') \<longrightarrow>
      (\<exists>b' child' ef'. cb' = EvalCallback b' child' ef' \<and>
         (best_mean_reward ef' = best_mean_reward ef \<or>
          float_lt (best_mean_reward ef) (best_mean_reward ef')))) \<and>
   (eval_freq ef \<noteq> 0 \<and> n_calls b mod eval_freq ef = 0 \<and> n_calls b2 mod eval_freq ef = 0 \<and>
    on_step w p (EvalCallback b child ef) = Inr (r, EvalCallback b child1 ef1, w1) \<and>
    mean_reward (evaluate_policy w2 (n_evaluations w2)) =
      mean_reward (evaluate_policy w (n_evaluations w)) \<and>
    on_step w2 p2 (EvalCallback b2 child1 ef1) = Inr (r2, cb2, w3) \<longrightarrow>
      r2 \<and> saves w3 = saves w2 \<and>
      (\<exists>ef2. cb2 = EvalCallback b2 child1 ef2 \<and> best_mean_reward ef2 = best_mean_reward ef1))"
proof (intro conjI impI)
  assume "EvalCallback_init e c n f lp bp det v = Inr cb"
  then show "\<exists>b0 ef0. cb = EvalCallback b0 c ef0 \<and> best_mean_reward ef0 = NegInf"
    by (auto simp: EvalCallback_init_def split: env.splits if_splits)
next
  assume "on_step w p (EvalCallback b child ef) = Inr (r, cb', w')"
  then show "\<exists>child' ef'. cb' = EvalCallback b child' ef' \<and>
         (best_mean_reward ef' = best_mean_reward ef \<or>
          float_lt (best_mean_reward ef) (best_mean_reward ef')) \<and>
         (best_mean_reward ef' \<noteq> best_mean_reward ef \<longrightarrow>
            eval_freq ef \<noteq> 0 \<and> n_calls b mod eval_freq ef = 0 \<and>
            float_gt (mean_reward (evaluate_policy w (n_evaluations w))) (best_mean_reward ef) \<and>
            best_mean_reward ef' = mean_reward (evaluate_policy w (n_evaluations w)))"
    by (rule eval_step_mono)
next
  assume "run_calls w m (EvalCallback b child ef) ts = Inr (rs, cb', w')"
  then show "\<exists>b' child' ef'. cb' = EvalCallback b' child' ef' \<and>
         (best_mean_reward ef' = best_mean_reward ef \<or>
          float_lt (best_mean_reward ef) (best_mean_reward ef'))"
    by (rule eval_run_mono)
next
  assume a: "eval_freq ef \<noteq> 0 \<and> n_calls b mod eval_freq ef = 0 \<and> n_calls b2 mod eval_freq ef = 0 \<and>
    on_step w p (EvalCallback b child ef) = Inr (r, EvalCallback b child1 ef1, w1) \<and>
    mean_reward (evaluate_policy w2 (n_evaluations w2)) =
      mean_reward (evaluate_policy w (n_evaluations w)) \<and>
    on_step w2 p2 (EvalCallback b2 child1 ef1) = Inr (r2, cb2, w3)"
  from a have d: "eval_freq ef \<noteq> 0" "n_calls b mod eval_freq ef = 0"
      "n_calls b2 mod eval_freq ef = 0"
    and first: "on_step w p (EvalCallback b child ef) = Inr (r, EvalCallback b child1 ef1, w1)"
    and same: "mean_reward (evaluate_policy w2 (n_evaluations w2)) =
      mean_reward (evaluate_policy w (n_evaluations w))"
    and second: "on_step w2 p2 (EvalCallback b2 child1 ef1) = Inr (r2, cb2, w3)"
    by blast+
  have t: "r2 \<and> saves w3 = saves w2 \<and>
      (\<exists>ef2. cb2 = EvalCallback b2 child1 ef2 \<and> best_mean_reward ef2 = best_mean_reward ef1)"
    by (rule eval_tie [OF d first same second])
  from t show "r2" by blast
  from t show "saves w3 = saves w2" by blast
  from t show "\<exists>ef2. cb2 = EvalCallback b2 child1 ef2 \<and> best_mean_reward ef2 = best_mean_reward ef1"
    by blast
qed

lemma eval0_step: "on_step world0 None eval0 = Inr (True, eval1, world1)"
  by (simp add: eval0_def eval1_def world1_def world0_def eval_fields0_def BaseCallback_init_def
      EvalCallback_run_evaluation_def EvalCallback_new_best_def float_gt_def Let_def
      emit_def print_if_def os_path_join_def)

lemma eval1_step: "on_step world1 None eval1 = Inr (True, eval1, world2)"
  by (simp add: eval1_def world1_def world2_def world0_def eval_fields0_def BaseCallback_init_def
      EvalCallback_run_evaluation_def EvalCallback_new_best_def float_gt_def Let_def
      emit_def print_if_def os_path_join_def)

theorem EvalCallback_best_mean_reward_only_grows_witness:
  "on_step world0 None eval0 = Inr (True, eval1, world1) \<and>
   on_step world1 None eval1 = Inr (True, eval1, world2) \<and>
   mean_reward (evaluate_policy world1 (n_evaluations world1)) =
     mean_reward (evaluate_policy world0 (n_evaluations world0)) \<and>
   saves world1 = [ModelSave 0 ''best/best_model''] \<and>
   saves world2 = saves world1"
proof -
  let ?b = "(BaseCallback_init 0)\<lparr>model := Some 0, n_calls := 2\<rparr>"
  have same: "mean_reward (evaluate_policy world1 (n_evaluations world1)) =
     mean_reward (evaluate_policy world0 (n_evaluations world0))"
    by (simp add: world1_def world0_def)
  have p1: "eval_freq eval_fields0 \<noteq> 0"
    by (simp add: eval_fields0_def)
  have p2: "n_calls ?b mod eval_freq eval_fields0 = 0"
    by (simp add: eval_fields0_def BaseCallback_init_def)
  have p3: "on_step world0 None (EvalCallback ?b None eval_fields0 :: nat callback) =
      Inr (True, EvalCallback ?b None (eval_fields0\<lparr>best_mean_reward := Fin 2\<rparr>), world1)"
    by (rule eval0_step [unfolded eval0_def eval1_def])
  have p4: "on_step world1 None (EvalCallback ?b None (eval_fields0\<lparr>best_mean_reward := Fin 2\<rparr>) :: nat callback) =
      Inr (True, EvalCallback ?b None (eval_fields0\<lparr>best_mean_reward := Fin 2\<rparr>), world2)"
    by (rule eval1_step [unfolded eval1_def])
  have pre: "eval_freq eval_fields0 \<noteq> 0 \<and> n_calls ?b mod eval_freq eval_fields0 = 0 \<and>
    n_calls ?b mod eval_freq eval_fields0 = 0 \<and>
    on_step world0 None (EvalCallback ?b None eval_fields0 :: nat callback) =
      Inr (True, EvalCallback ?b None (eval_fields0\<lparr>best_mean_reward := Fin 2\<rparr>), world1) \<and>
    mean_reward (evaluate_policy world1 (n_evaluations world1)) =
      mean_reward (evaluate_policy world0 (n_evaluations world0)) \<and>
    on_step world1 None (EvalCallback ?b None (eval_fields0\<lparr>best_mean_reward := Fin 2\<rparr>) :: nat callback) =
      Inr (True, EvalCallback ?b None (eval_fields0\<lparr>best_mean_reward := Fin 2\<rparr>), world2)"
    by (intro conjI p1 p2 p3 p4 same)
  have "saves world2 = saves world1"
    by (rule EvalCallback_best_mean_reward_only_grows
        [THEN conjunct2, THEN conjunct2, THEN conjunct2, THEN mp, OF pre,
         THEN conjunct2, THEN conjunct1])
  moreover have "saves world1 = [ModelSave 0 ''best/best_model'']"
    by (simp add: saves_def world1_def world0_def)
  ultimately show ?thesis using eval0_step eval1_step same by blast
qed

end
